theory Spec2Isabelle
  imports Main "HOL-Library.Word"
begin

section \<open>The dictionary pass of afl-llvm-dict2file.so.cc\<close>

text \<open>
  The pass \<open>AFLdict2filePass::runOnModule\<close> walks every call instruction of a module,
  keeps the calls of \<open>strcmp\<close>, \<open>memcmp\<close>, \<open>strncmp\<close>, \<open>strcasecmp\<close>,
  \<open>strncasecmp\<close> and of the intrinsic \<open>llvm.memcpy.p0i8.p0i8.i64\<close>, resolves their
  operands to constant strings and appends one line per token to the dictionary file.

  The LLVM objects the pass queries belong to the host framework. They are modelled by the
  answers the host gives to exactly the queries the pass makes.
\<close>

subsection \<open>Types and callees\<close>

text \<open>
  LLVM types are uniqued in their context, so the pointer comparison
  \<open>FT->getParamType(0) == FT->getParamType(1)\<close> is structural equality. A pointer type
  carries its pointee and its address space; \<open>getInt8PtrTy\<close> is the pointer to \<open>i8\<close> in
  address space 0.
\<close>

datatype llvm_type = IntegerTy nat | PointerTy llvm_type nat | OtherTy

definition Int8PtrTy :: llvm_type where
  "Int8PtrTy = PointerTy (IntegerTy 8) 0"

fun isIntegerTy :: "llvm_type \<Rightarrow> bool" where
  "isIntegerTy (IntegerTy w) = True"
| "isIntegerTy (PointerTy t a) = False"
| "isIntegerTy OtherTy = False"

fun isIntegerTy_width :: "nat \<Rightarrow> llvm_type \<Rightarrow> bool" where
  "isIntegerTy_width n (IntegerTy w) = (w = n)"
| "isIntegerTy_width n (PointerTy t a) = False"
| "isIntegerTy_width n OtherTy = False"

fun isPointerTy :: "llvm_type \<Rightarrow> bool" where
  "isPointerTy (IntegerTy w) = False"
| "isPointerTy (PointerTy t a) = True"
| "isPointerTy OtherTy = False"

record function_type =
  getReturnType :: llvm_type
  getParamTypes :: "llvm_type list"

definition getNumParams :: "function_type \<Rightarrow> nat" where
  "getNumParams FT = length (getParamTypes FT)"

definition getParamType :: "function_type \<Rightarrow> nat \<Rightarrow> llvm_type" where
  "getParamType FT i = getParamTypes FT ! i"

record callee =
  getName :: string
  getFunctionType :: function_type

subsection \<open>Operands and call instructions\<close>

text \<open>
  An operand \<open>Value *\<close> is its identity (the key of \<open>valueMap\<close>) together with what the
  host answers about it:
  \<^item> \<open>constantString\<close> is the answer of \<open>getConstantStringInfo(V, TmpStr)\<close>: \<open>Some s\<close>
    when the host assigns \<open>s\<close> to the out-parameter, \<open>None\<close> when it fails and leaves
    the out-parameter as it was. The pass overwrites the returned flag in both branches
    and looks at \<open>TmpStr\<close> only.
  \<^item> \<open>globalArray\<close> is \<open>Some bytes\<close> when the chain of casts of lines 255 to 266 goes
    through (a constant GEP expression without notional over-indexing, on a global
    variable, with an initializer, that is a \<open>ConstantDataArray\<close>), \<open>bytes\<close> being
    \<open>Array->getAsString()\<close>; \<open>None\<close> otherwise.
\<close>

record operand =
  value_id :: nat
  constantString :: "string option"
  globalArray :: "string option"

text \<open>
  Of a call instruction the pass reads the called function (\<open>None\<close> for a call through an
  unresolved target), the calling convention, the first two operands, and the third
  operand through \<open>dyn_cast<ConstantInt>\<close> and \<open>getZExtValue\<close>: \<open>Some n\<close> for a constant
  integer, \<open>None\<close> otherwise.
\<close>

datatype calling_conv = CallingConv_C | CallingConv_Other nat

record call_inst =
  getCalledFunction :: "callee option"
  getCallingConv :: calling_conv
  argOperand0 :: operand
  argOperand1 :: operand
  argOperand2 :: "64 word option"

subsection \<open>The call-site classifier (lines 155 to 211)\<close>

record flags =
  isStrcmp :: bool
  isMemcmp :: bool
  isStrncmp :: bool
  isStrcasecmp :: bool
  isStrncasecmp :: bool
  isIntMemcpy :: bool

definition none_set :: "flags \<Rightarrow> bool" where
  "none_set f \<longleftrightarrow> \<not> isStrcmp f \<and> \<not> isMemcmp f \<and> \<not> isStrncmp f \<and> \<not> isStrcasecmp f \<and>
     \<not> isStrncasecmp f \<and> \<not> isIntMemcpy f"

definition name_flags :: "string \<Rightarrow> flags" where
  "name_flags FuncName =
     \<lparr> isStrcmp = (FuncName = ''strcmp''),
       isMemcmp = (FuncName = ''memcmp''),
       isStrncmp = (FuncName = ''strncmp''),
       isStrcasecmp = (FuncName = ''strcasecmp''),
       isStrncasecmp = (FuncName = ''strncasecmp''),
       isIntMemcpy = (FuncName = ''llvm.memcpy.p0i8.p0i8.i64'') \<rparr>"

definition proto_flags :: "function_type \<Rightarrow> flags \<Rightarrow> flags" where
  "proto_flags FT f =
     \<lparr> isStrcmp = (isStrcmp f \<and>
         (getNumParams FT = 2 \<and> isIntegerTy_width 32 (getReturnType FT) \<and>
          getParamType FT 0 = getParamType FT 1 \<and> getParamType FT 0 = Int8PtrTy)),
       isMemcmp = (isMemcmp f \<and>
         (getNumParams FT = 3 \<and> isIntegerTy_width 32 (getReturnType FT) \<and>
          isPointerTy (getParamType FT 0) \<and> isPointerTy (getParamType FT 1) \<and>
          isIntegerTy (getParamType FT 2))),
       isStrncmp = (isStrncmp f \<and>
         (getNumParams FT = 3 \<and> isIntegerTy_width 32 (getReturnType FT) \<and>
          getParamType FT 0 = getParamType FT 1 \<and> getParamType FT 0 = Int8PtrTy \<and>
          isIntegerTy (getParamType FT 2))),
       isStrcasecmp = (isStrcasecmp f \<and>
         (getNumParams FT = 2 \<and> isIntegerTy_width 32 (getReturnType FT) \<and>
          getParamType FT 0 = getParamType FT 1 \<and> getParamType FT 0 = Int8PtrTy)),
       isStrncasecmp = (isStrncasecmp f \<and>
         (getNumParams FT = 3 \<and> isIntegerTy_width 32 (getReturnType FT) \<and>
          getParamType FT 0 = getParamType FT 1 \<and> getParamType FT 0 = Int8PtrTy \<and>
          isIntegerTy (getParamType FT 2))),
       isIntMemcpy = isIntMemcpy f \<rparr>"

text \<open>
  \<open>classify\<close> is \<open>None\<close> on each of the four \<open>continue\<close> statements of lines 165, 166,
  177 and 211, and the flags that reach line 217 otherwise.
\<close>

definition classify :: "call_inst \<Rightarrow> flags option" where
  "classify callInst =
     (case getCalledFunction callInst of
        None \<Rightarrow> None
      | Some Callee \<Rightarrow>
          if getCallingConv callInst \<noteq> CallingConv_C then None
          else if none_set (name_flags (getName Callee)) then None
          else if none_set (proto_flags (getFunctionType Callee) (name_flags (getName Callee)))
               then None
          else Some (proto_flags (getFunctionType Callee) (name_flags (getName Callee))))"

text \<open>The five comparison names of the vocabulary.\<close>

definition comparison_name :: "string \<Rightarrow> bool" where
  "comparison_name n \<longleftrightarrow>
     n = ''strcmp'' \<or> n = ''memcmp'' \<or> n = ''strncmp'' \<or> n = ''strcasecmp'' \<or>
     n = ''strncasecmp''"

definition bounded_name :: "string \<Rightarrow> bool" where
  "bounded_name n \<longleftrightarrow> n = ''memcmp'' \<or> n = ''strncmp'' \<or> n = ''strncasecmp''"

text \<open>
  The signature requirement in the words of the specification: two pointer-typed data
  parameters of identical pointer type, a third integer parameter for the bounded and
  memcmp variants, an integer return type.
\<close>

definition spec_signature :: "string \<Rightarrow> function_type \<Rightarrow> bool" where
  "spec_signature n FT \<longleftrightarrow>
     2 \<le> getNumParams FT \<and>
     isPointerTy (getParamType FT 0) \<and> isPointerTy (getParamType FT 1) \<and>
     getParamType FT 0 = getParamType FT 1 \<and>
     (bounded_name n \<longrightarrow> 3 \<le> getNumParams FT \<and> isIntegerTy (getParamType FT 2)) \<and>
     isIntegerTy (getReturnType FT)"

text \<open>
  The same requirement with the one difference the code makes: the two data parameters
  of \<open>memcmp\<close> are each pointer-typed, of possibly different pointer types.
\<close>

definition code_signature :: "string \<Rightarrow> function_type \<Rightarrow> bool" where
  "code_signature n FT \<longleftrightarrow>
     2 \<le> getNumParams FT \<and>
     isPointerTy (getParamType FT 0) \<and> isPointerTy (getParamType FT 1) \<and>
     (n \<noteq> ''memcmp'' \<longrightarrow> getParamType FT 0 = getParamType FT 1) \<and>
     (bounded_name n \<longrightarrow> 3 \<le> getNumParams FT \<and> isIntegerTy (getParamType FT 2)) \<and>
     isIntegerTy (getReturnType FT)"

definition memcmp_mixed_type :: function_type where
  "memcmp_mixed_type =
     \<lparr> getReturnType = IntegerTy 32,
       getParamTypes = [Int8PtrTy, PointerTy (IntegerTy 32) 0, IntegerTy 64] \<rparr>"

definition no_operand :: operand where
  "no_operand = \<lparr> value_id = 0, constantString = None, globalArray = None \<rparr>"

definition memcmp_mixed_call :: call_inst where
  "memcmp_mixed_call =
     \<lparr> getCalledFunction =
         Some \<lparr> getName = ''memcmp'', getFunctionType = memcmp_mixed_type \<rparr>,
       getCallingConv = CallingConv_C,
       argOperand0 = no_operand, argOperand1 = no_operand, argOperand2 = None \<rparr>"

subsection \<open>Configuration and state\<close>

text \<open>
  \<open>MAX_AUTO_EXTRA\<close> and \<open>MIN_AUTO_EXTRA\<close> are macros of \<open>config.h\<close> and \<open>be_quiet\<close> is a
  global of the common pass code; they are parameters here. Whether plain \<open>char\<close> is signed
  is left to the platform by the language, and decides what \<open>sprintf\<close> prints for a byte
  above 127, so it is a parameter as well.
\<close>

record config =
  MAX_AUTO_EXTRA :: nat
  MIN_AUTO_EXTRA :: nat
  be_quiet :: bool
  char_is_signed :: bool

text \<open>
  The locals of \<open>runOnModule\<close> that live across instructions, and the file behind \<open>fd\<close>:
  \<^item> \<open>valueMap\<close>, a \<open>DenseMap<Value *, std::string *>\<close>: a key is absent (\<open>None\<close>),
    bound to a null pointer (\<open>Some None\<close>) or bound to a string;
  \<^item> \<open>line\<close>, the buffer \<open>char line[MAX_AUTO_EXTRA * 8]\<close>, whose length is its capacity;
  \<^item> \<open>found\<close>;
  \<^item> whether \<open>fd\<close> is still open, the chunks written to it so far, and how many times
    \<open>close(fd)\<close> has been called.
\<close>

record state =
  valueMap :: "nat \<rightharpoonup> string option"
  line :: string
  found :: nat
  fd_open :: bool
  dict_file :: "string list"
  closes :: nat

text \<open>
  A run of the pass stops early when \<open>write\<close> fails (\<open>PFATAL\<close>). Writing outside
  \<open>line\<close> has no defined behaviour; the model stops there with an error of its own.
\<close>

datatype error = WriteFailed | LineOverrun

definition NUL :: char where
  "NUL = CHR 0x00"

definition dquote :: char where
  "dquote = CHR 0x22"

definition backslash :: char where
  "backslash = CHR 0x5C"

definition newline :: char where
  "newline = CHR 0x0A"

subsection \<open>Resolving the operands (lines 217 to 367)\<close>

definition getConstantStringInfo :: "operand \<Rightarrow> string \<Rightarrow> string" where
  "getConstantStringInfo V TmpStr = (case constantString V of None \<Rightarrow> TmpStr | Some s \<Rightarrow> s)"

record resolved =
  HasStr1 :: bool
  Str1 :: string
  HasStr2 :: bool
  Str2 :: string

text \<open>
  Lines 217 to 243. One \<open>TmpStr\<close> serves both calls, so the second test reads what the
  first call left there when the second call fails.
\<close>

definition literal_rule :: "call_inst \<Rightarrow> resolved" where
  "literal_rule callInst =
     (let TmpStr1 = getConstantStringInfo (argOperand0 callInst) [];
          TmpStr2 = getConstantStringInfo (argOperand1 callInst) TmpStr1
      in \<lparr> HasStr1 = (TmpStr1 \<noteq> []), Str1 = (if TmpStr1 = [] then [] else TmpStr1),
           HasStr2 = (TmpStr2 \<noteq> []), Str2 = (if TmpStr2 = [] then [] else TmpStr2) \<rparr>)"

text \<open>Lines 253 to 276, for the second operand.\<close>

definition global_rule2 :: "call_inst \<Rightarrow> resolved \<Rightarrow> resolved" where
  "global_rule2 callInst r =
     (if \<not> HasStr2 r then
        (case globalArray (argOperand1 callInst) of
           Some a \<Rightarrow> r\<lparr> HasStr2 := True, Str2 := a \<rparr>
         | None \<Rightarrow> r)
      else r)"

text \<open>Lines 327 to 351, for the first operand.\<close>

definition global_rule1 :: "call_inst \<Rightarrow> resolved \<Rightarrow> resolved" where
  "global_rule1 callInst r =
     (if \<not> HasStr1 r then
        (case globalArray (argOperand0 callInst) of
           Some a \<Rightarrow> r\<lparr> HasStr1 := True, Str1 := a \<rparr>
         | None \<Rightarrow> r)
      else r)"

text \<open>
  \<open>valueMap[V]\<close> of lines 315 and 357: \<open>operator[]\<close> inserts a null pointer for a key
  that is absent, and returns what the key is bound to.
\<close>

definition lookup_insert :: "(nat \<rightharpoonup> string option) \<Rightarrow> nat \<Rightarrow> string option \<times> (nat \<rightharpoonup> string option)" where
  "lookup_insert m k = (case m k of None \<Rightarrow> (None, m(k \<mapsto> None)) | Some p \<Rightarrow> (p, m))"

text \<open>Lines 313 to 325, for the second operand.\<close>

definition local_rule2 :: "call_inst \<Rightarrow> resolved \<times> (nat \<rightharpoonup> string option) \<Rightarrow> resolved \<times> (nat \<rightharpoonup> string option)" where
  "local_rule2 callInst rm =
     (if \<not> HasStr2 (fst rm) then
        (case fst (lookup_insert (snd rm) (value_id (argOperand1 callInst))) of
           Some strng \<Rightarrow>
             if strng \<noteq> []
             then ((fst rm)\<lparr> Str2 := strng, HasStr2 := True \<rparr>,
                   snd (lookup_insert (snd rm) (value_id (argOperand1 callInst))))
             else (fst rm, snd (lookup_insert (snd rm) (value_id (argOperand1 callInst))))
         | None \<Rightarrow> (fst rm, snd (lookup_insert (snd rm) (value_id (argOperand1 callInst)))))
      else rm)"

text \<open>Lines 355 to 367, for the first operand.\<close>

definition local_rule1 :: "call_inst \<Rightarrow> resolved \<times> (nat \<rightharpoonup> string option) \<Rightarrow> resolved \<times> (nat \<rightharpoonup> string option)" where
  "local_rule1 callInst rm =
     (if \<not> HasStr1 (fst rm) then
        (case fst (lookup_insert (snd rm) (value_id (argOperand0 callInst))) of
           Some strng \<Rightarrow>
             if strng \<noteq> []
             then ((fst rm)\<lparr> Str1 := strng, HasStr1 := True \<rparr>,
                   snd (lookup_insert (snd rm) (value_id (argOperand0 callInst))))
             else (fst rm, snd (lookup_insert (snd rm) (value_id (argOperand0 callInst))))
         | None \<Rightarrow> (fst rm, snd (lookup_insert (snd rm) (value_id (argOperand0 callInst)))))
      else rm)"

text \<open>
  What a comparison site knows of its operands at line 369: the literal rule on both,
  the global rule on the second, then (the site is not a copy) the table on the second,
  the global rule on the first and the table on the first.
\<close>

definition resolve_compare :: "call_inst \<Rightarrow> (nat \<rightharpoonup> string option) \<Rightarrow> resolved \<times> (nat \<rightharpoonup> string option)" where
  "resolve_compare callInst m =
     local_rule1 callInst
       (case local_rule2 callInst (global_rule2 callInst (literal_rule callInst), m) of
          (r, m') \<Rightarrow> (global_rule1 callInst r, m'))"

subsection \<open>The copy site (lines 280 to 309)\<close>

text \<open>
  \<open>literalLength\<close> and \<open>optLength\<close> are \<open>uint64_t\<close>; the sum \<open>literalLength + 1\<close> is
  taken in 64 bits.
\<close>

definition memcpy_string :: "64 word option \<Rightarrow> string \<Rightarrow> string" where
  "memcpy_string op2 s =
     (case op2 of
        None \<Rightarrow> s
      | Some optLength \<Rightarrow>
          if (of_nat (length s) :: 64 word) + 1 = optLength then s @ [NUL] else s)"

definition handle_memcpy :: "call_inst \<Rightarrow> state \<Rightarrow> state" where
  "handle_memcpy callInst s =
     (let r = global_rule2 callInst (literal_rule callInst) in
      if HasStr2 r
      then s\<lparr> valueMap := (valueMap s)(value_id (argOperand0 callInst) \<mapsto>
                  Some (memcpy_string (argOperand2 callInst) (Str2 r))) \<rparr>
      else s)"

subsection \<open>Reconciling the length (lines 372 to 415)\<close>

record candidate =
  thestring :: string
  optLen :: "64 word"
  addedNull :: bool

text \<open>Lines 379 to 397.\<close>

definition length_rule :: "flags \<Rightarrow> 64 word option \<Rightarrow> string \<Rightarrow> candidate" where
  "length_rule f op2 str =
     (if isMemcmp f \<or> isStrncmp f \<or> isStrncasecmp f then
        (case op2 of
           None \<Rightarrow> \<lparr> thestring = str, optLen = of_nat (length str), addedNull = False \<rparr>
         | Some ilen \<Rightarrow>
             if (of_nat (length str) :: 64 word) + 1 = ilen
             then \<lparr> thestring = str @ [NUL], optLen = ilen, addedNull = True \<rparr>
             else \<lparr> thestring = str, optLen = ilen, addedNull = False \<rparr>)
      else \<lparr> thestring = str, optLen = of_nat (length str), addedNull = False \<rparr>)"

text \<open>
  \<open>thestring.find('\0', 0)\<close>: the position of the first zero byte, or \<open>npos\<close>, the
  largest \<open>size_t\<close>.
\<close>

definition find_nul :: "string \<Rightarrow> 64 word" where
  "find_nul s = (if NUL \<in> set s then of_nat (length (takeWhile (\<lambda>c. c \<noteq> NUL) s)) else - 1)"

text \<open>Lines 401 to 415. \<open>substr(0, n)\<close> keeps at most \<open>n\<close> bytes.\<close>

definition append_terminator :: "candidate \<Rightarrow> candidate" where
  "append_terminator c =
     (if addedNull c = False
      then c\<lparr> thestring := thestring c @ [NUL], optLen := optLen c + 1 \<rparr>
      else c)"

definition cut_garbage :: "candidate \<Rightarrow> candidate" where
  "cut_garbage c =
     (let offset = find_nul (thestring c);
          optLen' = (if offset + 1 < optLen c then offset + 1 else optLen c)
      in c\<lparr> optLen := optLen', thestring := take (unat optLen') (thestring c) \<rparr>)"

definition terminator_rule :: "flags \<Rightarrow> candidate \<Rightarrow> candidate" where
  "terminator_rule f c = (if \<not> isMemcmp f then cut_garbage (append_terminator c) else c)"

definition reconcile :: "flags \<Rightarrow> 64 word option \<Rightarrow> string \<Rightarrow> candidate" where
  "reconcile f op2 str = terminator_rule f (length_rule f op2 str)"

subsection \<open>The diagnostic print (lines 417 to 434)\<close>

text \<open>
  The loop counter is a \<open>uint8_t\<close> compared with the length of the string; only whether the
  loop ends is modelled, what it prints to the diagnostic stream is not.
\<close>

partial_function (option) diag_loop :: "string \<Rightarrow> 8 word \<Rightarrow> unit option" where
  "diag_loop str i = (if unat i < length str then diag_loop str (i + 1) else Some ())"

declare diag_loop.simps [code]

definition diag_print :: "config \<Rightarrow> string \<Rightarrow> unit option" where
  "diag_print cfg str = (if \<not> be_quiet cfg then diag_loop str 0 else Some ())"

subsection \<open>Filtering by length (lines 440 to 443)\<close>

definition final_length :: "config \<Rightarrow> candidate \<Rightarrow> nat option" where
  "final_length cfg c =
     (let optLen1 = (if unat (optLen c) \<noteq> length (thestring c) then length (thestring c)
                     else unat (optLen c));
          optLen2 = (if optLen1 > MAX_AUTO_EXTRA cfg then MAX_AUTO_EXTRA cfg else optLen1)
      in if optLen2 < MIN_AUTO_EXTRA cfg then None else Some optLen2)"

subsection \<open>Rendering and writing the line (lines 445 to 473)\<close>

text \<open>
  \<open>isprint\<close> in the C locale, on the value of the byte. A byte above 127 is not printable;
  where \<open>char\<close> is signed it reaches \<open>isprint\<close> as a negative number, which the C library
  in use answers with no.
\<close>

definition isprint :: "char \<Rightarrow> bool" where
  "isprint c \<longleftrightarrow> 32 \<le> (of_char c :: nat) \<and> (of_char c :: nat) \<le> 126"

definition hex_digit :: "nat \<Rightarrow> char" where
  "hex_digit n = ''0123456789abcdef'' ! (n mod 16)"

text \<open>
  The text \<open>sprintf(tmp, "\\x%02x", ptr[i])\<close> produces. The \<open>char\<close> is promoted to \<open>int\<close>
  and printed as an \<open>unsigned int\<close>: a byte above 127 of a signed \<open>char\<close> is negative and
  prints with eight hexadecimal digits.
\<close>

definition hex_escape :: "config \<Rightarrow> char \<Rightarrow> string" where
  "hex_escape cfg c =
     (if char_is_signed cfg \<and> 128 \<le> (of_char c :: nat)
      then [backslash, CHR ''x''] @ ''ffffff'' @
           [hex_digit (of_char c div 16), hex_digit (of_char c)]
      else [backslash, CHR ''x''] @ [hex_digit (of_char c div 16), hex_digit (of_char c)])"

text \<open>
  \<open>tmp\<close> is \<open>char tmp[8]\<close>, with room for seven characters and the terminator, and
  \<open>sprintf\<close> checks nothing: a longer text is written all the same, its end behind \<open>tmp\<close>,
  and the run goes on. \<open>strcat\<close> of line 460 reads from the address of \<open>tmp\<close> up to the
  terminator, which is the whole text.
\<close>

definition sprintf_tmp :: "config \<Rightarrow> char \<Rightarrow> string" where
  "sprintf_tmp cfg c = hex_escape cfg c"

definition tmp_overrun :: "config \<Rightarrow> char \<Rightarrow> bool" where
  "tmp_overrun cfg c \<longleftrightarrow> 8 < length (sprintf_tmp cfg c) + 1"

text \<open>
  The buffer operations. \<open>poke buf j c\<close> is \<open>buf[j] = c\<close>; \<open>put_string buf p s\<close> copies \<open>s\<close>
  and its terminator to \<open>buf + p\<close>; \<open>strlen\<close> is the position of the first zero byte;
  \<open>strcat\<close> copies to the position of the first zero byte.
\<close>

definition poke :: "string \<Rightarrow> nat \<Rightarrow> char \<Rightarrow> error + string" where
  "poke buf j c = (if j < length buf then Inr (buf[j := c]) else Inl LineOverrun)"

definition put_string :: "string \<Rightarrow> nat \<Rightarrow> string \<Rightarrow> error + string" where
  "put_string buf p s =
     (if p + length s < length buf
      then Inr (take p buf @ s @ [NUL] @ drop (p + length s + 1) buf)
      else Inl LineOverrun)"

definition strlen :: "string \<Rightarrow> nat" where
  "strlen buf = length (takeWhile (\<lambda>c. c \<noteq> NUL) buf)"

definition strcpy :: "string \<Rightarrow> string \<Rightarrow> error + string" where
  "strcpy buf s = put_string buf 0 s"

definition strcat :: "string \<Rightarrow> string \<Rightarrow> error + string" where
  "strcat buf s = (if NUL \<in> set buf then put_string buf (strlen buf) s else Inl LineOverrun)"

text \<open>\<open>ptr[i]\<close> on \<open>thestring.c_str()\<close>: the byte at \<open>i\<close>, the terminator at the length.\<close>

definition c_str_at :: "string \<Rightarrow> nat \<Rightarrow> char" where
  "c_str_at str i = (if i < length str then str ! i else NUL)"

text \<open>
  The loop of lines 448 to 466, from index \<open>i\<close>, on the buffer \<open>ln\<close> and the cursor \<open>j\<close>.
  The branch of the escape sequence appends to the buffer and leaves \<open>j\<close> where it was.
\<close>

function render_loop :: "config \<Rightarrow> string \<Rightarrow> nat \<Rightarrow> nat \<Rightarrow> string \<Rightarrow> nat \<Rightarrow> error + (string \<times> nat)" where
  "render_loop cfg ptr n i ln j =
     (if i < n then
        (if isprint (c_str_at ptr i) then
           (case poke ln j (c_str_at ptr i) of
              Inl e \<Rightarrow> Inl e
            | Inr ln1 \<Rightarrow> render_loop cfg ptr n (i + 1) ln1 (j + 1))
         else if i + 1 \<noteq> n \<or> c_str_at ptr i \<noteq> NUL then
           (case poke ln j NUL of
              Inl e \<Rightarrow> Inl e
            | Inr ln1 \<Rightarrow>
                (case strcat ln1 (sprintf_tmp cfg (c_str_at ptr i)) of
                   Inl e \<Rightarrow> Inl e
                 | Inr ln2 \<Rightarrow> render_loop cfg ptr n (i + 1) ln2 j))
         else render_loop cfg ptr n (i + 1) ln j)
      else Inr (ln, j))"
  by pat_completeness auto

termination
  by (relation "measure (\<lambda>(cfg, ptr, n, i, ln, j). n - i)") auto

declare render_loop.simps [simp del]

text \<open>Lines 445 to 469: the buffer after rendering the first \<open>n\<close> bytes of \<open>str\<close>.\<close>

definition render :: "config \<Rightarrow> string \<Rightarrow> nat \<Rightarrow> string \<Rightarrow> error + string" where
  "render cfg str n ln =
     (case strcpy ln [dquote] of
        Inl e \<Rightarrow> Inl e
      | Inr ln0 \<Rightarrow>
          (case render_loop cfg str n 0 ln0 1 of
             Inl e \<Rightarrow> Inl e
           | Inr lj \<Rightarrow>
               (case poke (fst lj) (snd lj) NUL of
                  Inl e \<Rightarrow> Inl e
                | Inr ln2 \<Rightarrow> strcat ln2 [dquote, newline])))"

text \<open>
  Lines 470 to 473. \<open>write\<close> on the open descriptor appends the \<open>strlen(line)\<close> bytes to the
  file; on a descriptor that was closed it fails and the run aborts.
\<close>

definition written :: "string \<Rightarrow> string" where
  "written ln = take (strlen ln) ln"

definition emit :: "config \<Rightarrow> string \<Rightarrow> nat \<Rightarrow> state \<Rightarrow> error + state" where
  "emit cfg str n s =
     (case render cfg str n (line s) of
        Inl e \<Rightarrow> Inl e
      | Inr ln \<Rightarrow>
          if fd_open s
          then Inr (s\<lparr> line := ln, dict_file := dict_file s @ [written ln],
                      found := found s + 1 \<rparr>)
          else Inl WriteFailed)"

subsection \<open>One call instruction, and the loops\<close>

text \<open>
  The result of a stretch of the pass is \<open>None\<close> when it does not return, \<open>Some (Inl e)\<close>
  when it aborts and \<open>Some (Inr s)\<close> when it goes on in state \<open>s\<close>.
\<close>

definition candidate_of :: "flags \<Rightarrow> call_inst \<Rightarrow> resolved \<Rightarrow> candidate" where
  "candidate_of f callInst r =
     reconcile f (argOperand2 callInst) (if HasStr1 r then Str1 r else Str2 r)"

definition handle_compare :: "config \<Rightarrow> flags \<Rightarrow> call_inst \<Rightarrow> state \<Rightarrow> (error + state) option" where
  "handle_compare cfg f callInst s =
     (let rm = resolve_compare callInst (valueMap s);
          r = fst rm;
          s1 = s\<lparr> valueMap := snd rm \<rparr>
      in if \<not> (HasStr1 r \<noteq> HasStr2 r) then Some (Inr s1)
         else
           let c = candidate_of f callInst r
           in (case diag_print cfg (thestring c) of
                 None \<Rightarrow> None
               | Some u \<Rightarrow>
                   (case final_length cfg c of
                      None \<Rightarrow> Some (Inr s1)
                    | Some n \<Rightarrow> Some (emit cfg (thestring c) n s1))))"

definition handle_call :: "config \<Rightarrow> call_inst \<Rightarrow> state \<Rightarrow> (error + state) option" where
  "handle_call cfg callInst s =
     (case classify callInst of
        None \<Rightarrow> Some (Inr s)
      | Some f \<Rightarrow>
          if isIntMemcpy f then Some (Inr (handle_memcpy callInst s))
          else handle_compare cfg f callInst s)"

datatype instruction = Call call_inst | Other_instruction

fun run_block :: "config \<Rightarrow> instruction list \<Rightarrow> state \<Rightarrow> (error + state) option" where
  "run_block cfg [] s = Some (Inr s)"
| "run_block cfg (Other_instruction # INs) s = run_block cfg INs s"
| "run_block cfg (Call callInst # INs) s =
     (case handle_call cfg callInst s of
        None \<Rightarrow> None
      | Some (Inl e) \<Rightarrow> Some (Inl e)
      | Some (Inr s') \<Rightarrow> run_block cfg INs s')"

fun run_blocks :: "config \<Rightarrow> instruction list list \<Rightarrow> state \<Rightarrow> (error + state) option" where
  "run_blocks cfg [] s = Some (Inr s)"
| "run_blocks cfg (BB # BBs) s =
     (case run_block cfg BB s of
        None \<Rightarrow> None
      | Some (Inl e) \<Rightarrow> Some (Inl e)
      | Some (Inr s') \<Rightarrow> run_blocks cfg BBs s')"

text \<open>
  A function of the module: whether \<open>isIgnoreFunction\<close> holds of it, and its basic blocks.
  The \<open>continue\<close> of line 117 skips the \<open>close(fd)\<close> of line 481 as well.
\<close>

record func =
  isIgnoreFunction :: bool
  basic_blocks :: "instruction list list"

definition run_function :: "config \<Rightarrow> func \<Rightarrow> state \<Rightarrow> (error + state) option" where
  "run_function cfg F s =
     (if isIgnoreFunction F then Some (Inr s)
      else
        (case run_blocks cfg (basic_blocks F) s of
           None \<Rightarrow> None
         | Some (Inl e) \<Rightarrow> Some (Inl e)
         | Some (Inr s') \<Rightarrow> Some (Inr (s'\<lparr> fd_open := False, closes := closes s' + 1 \<rparr>))))"

text \<open>The loop of lines 115 to 483 over the functions of the module.\<close>

fun run_module :: "config \<Rightarrow> func list \<Rightarrow> state \<Rightarrow> (error + state) option" where
  "run_module cfg [] s = Some (Inr s)"
| "run_module cfg (F # Fs) s =
     (case run_function cfg F s of
        None \<Rightarrow> None
      | Some (Inl e) \<Rightarrow> Some (Inl e)
      | Some (Inr s') \<Rightarrow> run_module cfg Fs s')"

subsection \<open>The specification's notions, for comparison with the code\<close>

text \<open>
  What the table binds a reference to: a string, or nothing, a null pointer standing for
  nothing.
\<close>

definition binding :: "(nat \<rightharpoonup> string option) \<Rightarrow> nat \<Rightarrow> string option" where
  "binding m k = (case m k of Some (Some str) \<Rightarrow> Some str | Some None \<Rightarrow> None | None \<Rightarrow> None)"

definition bound_nonempty :: "(nat \<rightharpoonup> string option) \<Rightarrow> nat \<Rightarrow> bool" where
  "bound_nonempty m k = (case binding m k of Some str \<Rightarrow> str \<noteq> [] | None \<Rightarrow> False)"

text \<open>
  The resolver of the specification: an operand resolves when it is a non-empty constant
  string, or the address of a global with a constant byte array as initializer, or bound
  to a non-empty string in the table.
\<close>

definition spec_resolves :: "(nat \<rightharpoonup> string option) \<Rightarrow> operand \<Rightarrow> bool" where
  "spec_resolves m V \<longleftrightarrow>
     (case constantString V of Some str \<Rightarrow> str \<noteq> [] | None \<Rightarrow> False) \<or>
     globalArray V \<noteq> None \<or>
     (case binding m (value_id V) of Some str \<Rightarrow> str \<noteq> [] | None \<Rightarrow> False)"

text \<open>
  The first two rules of the specification's resolver on one operand: its non-empty
  constant string, or else the byte array of its global.
\<close>

definition spec_resolve_static :: "operand \<Rightarrow> string option" where
  "spec_resolve_static V =
     (case constantString V of
        Some str \<Rightarrow> if str \<noteq> [] then Some str else globalArray V
      | None \<Rightarrow> globalArray V)"

text \<open>
  An operand that is a constant of length zero and nothing else: no byte array behind it
  and no non-empty string bound to it.
\<close>

definition empty_constant :: "(nat \<rightharpoonup> string option) \<Rightarrow> operand \<Rightarrow> bool" where
  "empty_constant m V \<longleftrightarrow>
     constantString V = Some [] \<and> globalArray V = None \<and> \<not> bound_nonempty m (value_id V)"

text \<open>
  The length reconciler of the specification: the terminator and the cut at the first zero
  byte for the unbounded kinds only.
\<close>

definition spec_reconcile :: "flags \<Rightarrow> 64 word option \<Rightarrow> string \<Rightarrow> candidate" where
  "spec_reconcile f op2 str =
     (if isStrcmp f \<or> isStrcasecmp f then cut_garbage (append_terminator (length_rule f op2 str))
      else length_rule f op2 str)"

text \<open>
  The rendering of the specification: the bytes 33 to 126 verbatim, every other byte as a
  backslash, an \<open>x\<close> and two hexadecimal digits, a zero byte in last position dropped,
  between double quotes and followed by a newline.
\<close>

definition spec_byte :: "char \<Rightarrow> string" where
  "spec_byte c =
     (if 33 \<le> (of_char c :: nat) \<and> (of_char c :: nat) \<le> 126 then [c]
      else [backslash, CHR ''x'', hex_digit (of_char c div 16), hex_digit (of_char c)])"

fun spec_bytes :: "string \<Rightarrow> string" where
  "spec_bytes [] = []"
| "spec_bytes [c] = (if c = NUL then [] else spec_byte c)"
| "spec_bytes (c # d # cs) = spec_byte c @ spec_bytes (d # cs)"

definition spec_render :: "string \<Rightarrow> string" where
  "spec_render str = [dquote] @ spec_bytes str @ [dquote, newline]"

text \<open>The content of an entry without a zero byte in last position.\<close>

definition drop_last_zero :: "string \<Rightarrow> string" where
  "drop_last_zero content =
     (if content \<noteq> [] \<and> last content = NUL then butlast content else content)"






text \<open>
  The functions of a module the pass scans.
\<close>

definition scanned :: "func list \<Rightarrow> func list" where
  "scanned M = filter (\<lambda>F. \<not> isIgnoreFunction F) M"

subsection \<open>The line buffer across a run\<close>

text \<open>
  The escape sequence of each of the first \<open>n\<close> bytes, with its terminator, has room in a
  buffer of \<open>L\<close> bytes behind \<open>n\<close> characters.
\<close>

definition escapes_fit :: "config \<Rightarrow> string \<Rightarrow> nat \<Rightarrow> nat \<Rightarrow> bool" where
  "escapes_fit cfg ptr n L \<longleftrightarrow>
     list_all (\<lambda>k. n + length (sprintf_tmp cfg (c_str_at ptr k)) < L) [0..<n]"

text \<open>What the loop of lines 448 to 466 has established when it is left.\<close>

definition loop_inv ::
  "config \<Rightarrow> string \<Rightarrow> nat \<Rightarrow> nat \<Rightarrow> nat \<Rightarrow> string \<Rightarrow> error + (string \<times> nat) \<Rightarrow> bool" where
  "loop_inv cfg ptr n i L pre r =
     (case r of
        Inl e \<Rightarrow> False
      | Inr lj \<Rightarrow>
          length (fst lj) = L \<and> snd lj \<le> n + 1 \<and>
          NUL \<notin> set (take (snd lj) (fst lj)) \<and>
          take (snd lj) (fst lj) = pre @ filter isprint (map (c_str_at ptr) [i..<n]))"

text \<open>
  The buffer has the size of its declaration, and an outcome is free of an overrun of the
  buffer and leaves it with that size.
\<close>

definition line_ok :: "config \<Rightarrow> state \<Rightarrow> bool" where
  "line_ok cfg s \<longleftrightarrow> length (line s) = MAX_AUTO_EXTRA cfg * 8"

definition no_overrun :: "config \<Rightarrow> (error + state) option \<Rightarrow> bool" where
  "no_overrun cfg r =
     (case r of
        None \<Rightarrow> True
      | Some (Inl e) \<Rightarrow> e \<noteq> LineOverrun
      | Some (Inr s') \<Rightarrow> line_ok cfg s')"

subsection \<open>Concrete inputs\<close>

text \<open>
  A configuration with \<open>MAX_AUTO_EXTRA = 4\<close> and \<open>MIN_AUTO_EXTRA = 3\<close>, a state right after
  the file was opened, with a buffer of \<open>4 * 8\<close> bytes of leftovers, and a few operands,
  callees and calls.
\<close>

definition config_example :: config where
  "config_example =
     \<lparr> MAX_AUTO_EXTRA = 4, MIN_AUTO_EXTRA = 3, be_quiet = True, char_is_signed = True \<rparr>"

definition line_example :: string where
  "line_example = ''################################''"

definition state_example :: state where
  "state_example =
     \<lparr> valueMap = Map.empty, line = line_example, found = 0, fd_open = True,
       dict_file = [], closes = 0 \<rparr>"

definition literal_operand :: "nat \<Rightarrow> string \<Rightarrow> operand" where
  "literal_operand k str =
     \<lparr> value_id = k, constantString = Some str, globalArray = Some (str @ [NUL]) \<rparr>"

definition variable_operand :: "nat \<Rightarrow> operand" where
  "variable_operand k = \<lparr> value_id = k, constantString = None, globalArray = None \<rparr>"

definition int_function :: "string \<Rightarrow> llvm_type list \<Rightarrow> callee" where
  "int_function n ps =
     \<lparr> getName = n,
       getFunctionType = \<lparr> getReturnType = IntegerTy 32, getParamTypes = ps \<rparr> \<rparr>"

definition strcmp_callee :: callee where
  "strcmp_callee = int_function ''strcmp'' [Int8PtrTy, Int8PtrTy]"

definition strncmp_callee :: callee where
  "strncmp_callee = int_function ''strncmp'' [Int8PtrTy, Int8PtrTy, IntegerTy 64]"

definition memcpy_callee :: callee where
  "memcpy_callee =
     \<lparr> getName = ''llvm.memcpy.p0i8.p0i8.i64'',
       getFunctionType =
         \<lparr> getReturnType = OtherTy,
           getParamTypes = [Int8PtrTy, Int8PtrTy, IntegerTy 64, IntegerTy 1] \<rparr> \<rparr>"

definition call_of :: "callee \<Rightarrow> operand \<Rightarrow> operand \<Rightarrow> 64 word option \<Rightarrow> call_inst" where
  "call_of c a b n =
     \<lparr> getCalledFunction = Some c, getCallingConv = CallingConv_C,
       argOperand0 = a, argOperand1 = b, argOperand2 = n \<rparr>"

definition strcmp_flags :: flags where
  "strcmp_flags =
     \<lparr> isStrcmp = True, isMemcmp = False, isStrncmp = False, isStrcasecmp = False,
       isStrncasecmp = False, isIntMemcpy = False \<rparr>"

definition strncmp_flags :: flags where
  "strncmp_flags =
     \<lparr> isStrcmp = False, isMemcmp = False, isStrncmp = True, isStrcasecmp = False,
       isStrncasecmp = False, isIntMemcpy = False \<rparr>"

definition memcpy_flags :: flags where
  "memcpy_flags =
     \<lparr> isStrcmp = False, isMemcmp = False, isStrncmp = False, isStrcasecmp = False,
       isStrncasecmp = False, isIntMemcpy = True \<rparr>"

text \<open>
  \<open>strncmp(x, "abc", 3)\<close>, \<open>strcmp(x, "abc")\<close>, \<open>strcmp("abc", x)\<close>, \<open>strcmp(x, "a b")\<close>
  and \<open>strcmp(x, "abcdef")\<close>.
\<close>

definition strncmp_abc :: call_inst where
  "strncmp_abc =
     call_of strncmp_callee (variable_operand 10) (literal_operand 2 ''abc'') (Some 3)"

definition strcmp_abc :: call_inst where
  "strcmp_abc = call_of strcmp_callee (variable_operand 10) (literal_operand 2 ''abc'') None"

definition strcmp_abc_first :: call_inst where
  "strcmp_abc_first =
     call_of strcmp_callee (literal_operand 2 ''abc'') (variable_operand 10) None"

definition strcmp_a_b :: call_inst where
  "strcmp_a_b = call_of strcmp_callee (variable_operand 10) (literal_operand 3 ''a b'') None"

definition strcmp_abcdef :: call_inst where
  "strcmp_abcdef =
     call_of strcmp_callee (variable_operand 10) (literal_operand 9 ''abcdef'') None"

text \<open>\<open>memcpy(d, "AAA", 4)\<close>, \<open>memcpy(d, "ZZ", 3)\<close> and \<open>strcmp(x, d)\<close>, with \<open>d\<close> the value 7.\<close>

definition copy_AAA :: call_inst where
  "copy_AAA =
     call_of memcpy_callee (variable_operand 7) (literal_operand 4 ''AAA'') (Some 4)"


definition strcmp_d :: call_inst where
  "strcmp_d = call_of strcmp_callee (variable_operand 10) (variable_operand 7) None"

text \<open>
  \<open>strcmp(x, "")\<close> and \<open>strcmp("", x)\<close>: the empty literal is a zero initializer, not a data
  array.
\<close>

definition empty_literal :: operand where
  "empty_literal = \<lparr> value_id = 6, constantString = Some [], globalArray = None \<rparr>"

definition strcmp_empty :: call_inst where
  "strcmp_empty = call_of strcmp_callee (variable_operand 10) empty_literal None"

definition strcmp_empty_first :: call_inst where
  "strcmp_empty_first = call_of strcmp_callee empty_literal (variable_operand 10) None"

text \<open>A module of two scanned functions, each with one comparison.\<close>

definition two_functions :: "func list" where
  "two_functions =
     [\<lparr> isIgnoreFunction = False, basic_blocks = [[Call strcmp_abc]] \<rparr>,
      \<lparr> isIgnoreFunction = False, basic_blocks = [[Other_instruction], [Call strcmp_d]] \<rparr>]"

text \<open>A module of two scanned functions that both write an entry.\<close>

definition two_writers :: "func list" where
  "two_writers =
     [\<lparr> isIgnoreFunction = False, basic_blocks = [[Call strcmp_abc]] \<rparr>,
      \<lparr> isIgnoreFunction = False, basic_blocks = [[Call strcmp_abc]] \<rparr>]"

text \<open>
  The states after \<open>strcmp(x, "abc")\<close>, after \<open>strcmp(x, "abcdef")\<close>, after
  \<open>strcmp(x, "a b")\<close>, after the two copies into \<open>d\<close> and after the module of two
  functions, each from the example state.
\<close>

definition state_after_abc :: state where
  "state_after_abc =
     state_example\<lparr> valueMap := [10 \<mapsto> None],
       line := [dquote] @ ''abc'' @ [dquote, newline, NUL] @ ''#########################'',
       dict_file := [[dquote] @ ''abc'' @ [dquote, newline]], found := 1 \<rparr>"

definition state_after_abcdef :: state where
  "state_after_abcdef =
     state_example\<lparr> valueMap := [10 \<mapsto> None],
       line := [dquote] @ ''abcd'' @ [dquote, newline, NUL] @ ''########################'',
       dict_file := [[dquote] @ ''abcd'' @ [dquote, newline]], found := 1 \<rparr>"

definition state_after_a_b :: state where
  "state_after_a_b =
     state_example\<lparr> valueMap := [10 \<mapsto> None],
       line := [dquote] @ ''a b'' @ [dquote, newline, NUL] @ ''#########################'',
       dict_file := [[dquote] @ ''a b'' @ [dquote, newline]], found := 1 \<rparr>"


definition state_after_two :: state where
  "state_after_two =
     state_after_abc\<lparr> valueMap := [10 \<mapsto> None, 7 \<mapsto> None], fd_open := False, closes := 2 \<rparr>"

text \<open>
  \<open>memcpy("abc", g, 3)\<close> and \<open>memcpy(d, g, 3)\<close>, with \<open>g\<close> a global that is not constant
  and has the two bytes \<open>xy\<close> as initializer, and the states after each, from the example
  state.
\<close>

definition global_xy :: operand where
  "global_xy = \<lparr> value_id = 11, constantString = None, globalArray = Some ''xy'' \<rparr>"

definition copy_abc_xy :: call_inst where
  "copy_abc_xy = call_of memcpy_callee (literal_operand 2 ''abc'') global_xy (Some 3)"

definition copy_d_xy :: call_inst where
  "copy_d_xy = call_of memcpy_callee (variable_operand 7) global_xy (Some 3)"

definition state_after_copy_abc_xy :: state where
  "state_after_copy_abc_xy = state_example\<lparr> valueMap := [2 \<mapsto> Some ''abc''] \<rparr>"

definition state_after_copy_d_xy :: state where
  "state_after_copy_d_xy = state_example\<lparr> valueMap := [7 \<mapsto> Some (''xy'' @ [NUL])] \<rparr>"

text \<open>
  A configuration with \<open>MAX_AUTO_EXTRA = 1\<close> and \<open>MIN_AUTO_EXTRA = 1\<close> where \<open>char\<close> is signed,
  a state with the buffer of \<open>1 * 8\<close> bytes, and \<open>strcmp(x, s)\<close> with \<open>s\<close> the one byte 128.
\<close>

definition config_one :: config where
  "config_one =
     \<lparr> MAX_AUTO_EXTRA = 1, MIN_AUTO_EXTRA = 1, be_quiet = True, char_is_signed = True \<rparr>"

definition state_one :: state where
  "state_one = state_example\<lparr> line := ''########'' \<rparr>"

definition strcmp_x80 :: call_inst where
  "strcmp_x80 = call_of strcmp_callee (variable_operand 10) (literal_operand 8 [CHR 0x80]) None"

section \<open>The classifier\<close>

lemma isIntegerTy_width_imp: "isIntegerTy_width n t \<Longrightarrow> isIntegerTy t"
  by (cases t) simp_all

lemma isPointerTy_Int8PtrTy: "isPointerTy Int8PtrTy"
  by (simp add: Int8PtrTy_def)

lemma classify_name:
  assumes "classify ci = Some f" "getCalledFunction ci = Some Callee"
  shows "f = proto_flags (getFunctionType Callee) (name_flags (getName Callee))" "\<not> none_set f"
  using assms by (auto simp: classify_def split: if_splits)

lemma isMemcmp_classify:
  assumes "classify ci = Some f" "getCalledFunction ci = Some Callee" "comparison_name (getName Callee)"
  shows "isMemcmp f \<longleftrightarrow> getName Callee = ''memcmp''"
  using classify_name [OF assms(1,2)] assms(3)
  by (auto simp: proto_flags_def name_flags_def none_set_def comparison_name_def)

section \<open>The resolver\<close>

lemma binding_lookup_insert: "binding (snd (lookup_insert m k)) d = binding m d"
  by (auto simp: binding_def lookup_insert_def split: option.splits)

lemma HasStr1_literal_rule:
  "HasStr1 (literal_rule ci) \<longleftrightarrow>
     (case constantString (argOperand0 ci) of Some str \<Rightarrow> str \<noteq> [] | None \<Rightarrow> False)"
  by (simp add: literal_rule_def getConstantStringInfo_def Let_def split: option.splits)

lemma HasStr2_literal_rule:
  "HasStr2 (literal_rule ci) \<longleftrightarrow>
     (case constantString (argOperand1 ci) of
        Some str \<Rightarrow> str \<noteq> []
      | None \<Rightarrow> HasStr1 (literal_rule ci))"
  by (simp add: literal_rule_def getConstantStringInfo_def Let_def split: option.splits)

lemma binding_local_rule2: "binding (snd (local_rule2 ci rm)) d = binding (snd rm) d"
  by (simp add: local_rule2_def binding_lookup_insert split: option.splits)


lemma resolve_compare_unfold:
  "resolve_compare ci m =
     local_rule1 ci
       (global_rule1 ci (fst (local_rule2 ci (global_rule2 ci (literal_rule ci), m))),
        snd (local_rule2 ci (global_rule2 ci (literal_rule ci), m)))"
  by (simp add: resolve_compare_def split: prod.splits)


lemma global_rule2_flags:
  "HasStr1 (global_rule2 ci r) = HasStr1 r"
  "HasStr2 (global_rule2 ci r) \<longleftrightarrow> HasStr2 r \<or> globalArray (argOperand1 ci) \<noteq> None"
  by (auto simp: global_rule2_def split: option.splits)

lemma global_rule1_flags:
  "HasStr2 (global_rule1 ci r) = HasStr2 r"
  "HasStr1 (global_rule1 ci r) \<longleftrightarrow> HasStr1 r \<or> globalArray (argOperand0 ci) \<noteq> None"
  by (auto simp: global_rule1_def split: option.splits)

lemma local_rule2_flags:
  "HasStr1 (fst (local_rule2 ci rm)) = HasStr1 (fst rm)"
  "HasStr2 (fst (local_rule2 ci rm)) \<longleftrightarrow>
     HasStr2 (fst rm) \<or> bound_nonempty (snd rm) (value_id (argOperand1 ci))"
  by (auto simp: local_rule2_def bound_nonempty_def binding_def lookup_insert_def
      split: option.splits)

lemma local_rule1_flags:
  "HasStr2 (fst (local_rule1 ci rm)) = HasStr2 (fst rm)"
  "HasStr1 (fst (local_rule1 ci rm)) \<longleftrightarrow>
     HasStr1 (fst rm) \<or> bound_nonempty (snd rm) (value_id (argOperand0 ci))"
  by (auto simp: local_rule1_def bound_nonempty_def binding_def lookup_insert_def
      split: option.splits)

text \<open>
  The first flag at line 369 is the specification's resolver on the first operand. The
  second flag is also set when the second operand is no constant at all and the first is
  a literal: \<open>TmpStr\<close> still holds the first literal then.
\<close>

lemma HasStr1_resolve_compare:
  "HasStr1 (fst (resolve_compare ci m)) \<longleftrightarrow> spec_resolves m (argOperand0 ci)"
  by (simp add: resolve_compare_unfold local_rule1_flags global_rule1_flags local_rule2_flags
      global_rule2_flags binding_local_rule2 HasStr1_literal_rule spec_resolves_def
      bound_nonempty_def)

lemma HasStr2_resolve_compare:
  "HasStr2 (fst (resolve_compare ci m)) \<longleftrightarrow>
     spec_resolves m (argOperand1 ci) \<or>
     (constantString (argOperand1 ci) = None \<and> HasStr1 (literal_rule ci))"
  by (auto simp: resolve_compare_unfold local_rule1_flags global_rule1_flags local_rule2_flags
      global_rule2_flags HasStr2_literal_rule spec_resolves_def
      bound_nonempty_def split: option.splits)

lemma HasStr1_literal_resolve:
  "HasStr1 (literal_rule ci) \<Longrightarrow> HasStr1 (fst (resolve_compare ci m))"
  by (simp add: HasStr1_resolve_compare HasStr1_literal_rule spec_resolves_def
      split: option.splits)

lemma flags_differ_resolves:
  "HasStr1 (fst (resolve_compare ci m)) \<noteq> HasStr2 (fst (resolve_compare ci m)) \<Longrightarrow>
   spec_resolves m (argOperand0 ci) \<noteq> spec_resolves m (argOperand1 ci)"
  using HasStr1_literal_resolve [of ci m]
  by (auto simp: HasStr1_resolve_compare HasStr2_resolve_compare)

lemma resolves_equal_flags:
  "spec_resolves m (argOperand0 ci) = spec_resolves m (argOperand1 ci) \<Longrightarrow>
   HasStr1 (fst (resolve_compare ci m)) = HasStr2 (fst (resolve_compare ci m))"
  using flags_differ_resolves by blast

lemma static_resolution:
  assumes "\<not> HasStr1 (literal_rule ci)" and "spec_resolve_static (argOperand1 ci) = Some str"
  shows "HasStr2 (global_rule2 ci (literal_rule ci)) \<and>
         Str2 (global_rule2 ci (literal_rule ci)) = str"
  using assms
  by (auto simp: spec_resolve_static_def global_rule2_def literal_rule_def Let_def
      getConstantStringInfo_def split: option.splits if_splits)

section \<open>The outcomes of a call instruction\<close>

lemma emit_Inr:
  "emit cfg str n s = Inr s' \<Longrightarrow>
   \<exists>ln. render cfg str n (line s) = Inr ln \<and> fd_open s \<and>
     s' = s\<lparr> line := ln, dict_file := dict_file s @ [written ln], found := found s + 1 \<rparr>"
  by (auto simp: emit_def split: sum.splits if_splits)

lemma handle_compare_skip:
  "HasStr1 (fst (resolve_compare ci (valueMap s))) =
     HasStr2 (fst (resolve_compare ci (valueMap s))) \<Longrightarrow>
   handle_compare cfg f ci s =
     Some (Inr (s\<lparr> valueMap := snd (resolve_compare ci (valueMap s)) \<rparr>))"
  by (simp add: handle_compare_def Let_def)

lemma handle_compare_Inr:
  assumes "handle_compare cfg f ci s = Some (Inr s')"
  shows "(s' = s\<lparr> valueMap := snd (resolve_compare ci (valueMap s)) \<rparr> \<and>
          (HasStr1 (fst (resolve_compare ci (valueMap s))) =
             HasStr2 (fst (resolve_compare ci (valueMap s))) \<or>
           final_length cfg (candidate_of f ci (fst (resolve_compare ci (valueMap s)))) = None)) \<or>
         (HasStr1 (fst (resolve_compare ci (valueMap s))) \<noteq>
            HasStr2 (fst (resolve_compare ci (valueMap s))) \<and>
          (\<exists>n. final_length cfg (candidate_of f ci (fst (resolve_compare ci (valueMap s)))) = Some n \<and>
             emit cfg (thestring (candidate_of f ci (fst (resolve_compare ci (valueMap s))))) n
               (s\<lparr> valueMap := snd (resolve_compare ci (valueMap s)) \<rparr>) = Inr s'))"
  using assms
  by (auto simp: handle_compare_def Let_def split: if_splits option.splits)

lemma handle_call_compare:
  "classify ci = Some f \<Longrightarrow> \<not> isIntMemcpy f \<Longrightarrow>
   handle_call cfg ci s = handle_compare cfg f ci s"
  by (simp add: handle_call_def)

lemma handle_call_memcpy:
  "classify ci = Some f \<Longrightarrow> isIntMemcpy f \<Longrightarrow> handle_call cfg ci s = Some (Inr (handle_memcpy ci s))"
  by (simp add: handle_call_def)

lemma final_length_Some:
  "final_length cfg c = Some n \<longleftrightarrow>
     n = min (length (thestring c)) (MAX_AUTO_EXTRA cfg) \<and> MIN_AUTO_EXTRA cfg \<le> n"
  by (auto simp: final_length_def Let_def)

lemma final_length_None:
  "final_length cfg c = None \<longleftrightarrow>
     min (length (thestring c)) (MAX_AUTO_EXTRA cfg) < MIN_AUTO_EXTRA cfg"
  by (auto simp: final_length_def Let_def)

lemma c_str_at_take: "i < n \<Longrightarrow> c_str_at (take n str) i = c_str_at str i"
  by (simp add: c_str_at_def)

lemma render_loop_take:
  "render_loop cfg (take n str) n i ln j = render_loop cfg str n i ln j"
proof (induction "n - i" arbitrary: i ln j)
  case 0
  then have "\<not> i < n" by simp
  then show ?case
    by (simp add: render_loop.simps [of _ _ n i])
next
  case (Suc k)
  then have i: "i < n" and k: "k = n - (i + 1)" by simp_all
  note IH = Suc.hyps(1) [OF k]
  have L: "render_loop cfg (take n str) n i ln j =
     (if isprint (c_str_at str i) then
        (case poke ln j (c_str_at str i) of
           Inl e \<Rightarrow> Inl e
         | Inr ln1 \<Rightarrow> render_loop cfg (take n str) n (i + 1) ln1 (j + 1))
      else if i + 1 \<noteq> n \<or> c_str_at str i \<noteq> NUL then
        (case poke ln j NUL of
           Inl e \<Rightarrow> Inl e
         | Inr ln1 \<Rightarrow>
             (case strcat ln1 (sprintf_tmp cfg (c_str_at str i)) of
                Inl e \<Rightarrow> Inl e
              | Inr ln2 \<Rightarrow> render_loop cfg (take n str) n (i + 1) ln2 j))
      else render_loop cfg (take n str) n (i + 1) ln j)"
    using i by (subst render_loop.simps) (simp add: c_str_at_take cong: sum.case_cong)
  show ?case
    unfolding L IH using i by (subst (4) render_loop.simps) simp
qed

lemma render_take: "render cfg (take n str) n ln = render cfg str n ln"
  by (simp add: render_def render_loop_take cong: sum.case_cong)

section \<open>The diagnostic loop\<close>

text \<open>
  The loop of line 422 ends exactly for the strings of fewer than 256 bytes: its counter is
  a \<open>uint8_t\<close>.
\<close>

lemma diag_loop_Some:
  assumes "diag_loop str i = Some y"
  shows "length str < 256"
proof (rule diag_loop.raw_induct [where P = "\<lambda>str i y. length str < 256", OF _ assms])
  fix f :: "string \<Rightarrow> 8 word \<Rightarrow> unit option" and str i y
  assume IH: "\<And>str i y. f str i = Some y \<Longrightarrow> length str < 256"
    and eq: "(if unat i < length str then f str (i + 1) else Some ()) = Some y"
  show "length str < 256"
  proof (cases "unat i < length str")
    case True
    with eq IH show ?thesis by simp
  next
    case False
    have "unat i < 256" using unsigned_less [of i, where ?'a = nat] by simp
    with False show ?thesis by simp
  qed
qed

lemma diag_loop_terminates:
  assumes "length str < 256"
  shows "diag_loop str i = Some ()"
proof (induction "length str - unat i" arbitrary: i)
  case 0
  then show ?case by (subst diag_loop.simps) simp
next
  case (Suc k)
  then have lt: "unat i < length str" by simp
  with assms have "unat i + 1 < 256" by simp
  then have u: "unat (i + 1) = unat i + 1"
    by (simp add: unat_word_ariths)
  have "diag_loop str (i + 1) = Some ()"
    using Suc.hyps(2) lt by (intro Suc.hyps(1)) (simp add: u)
  with lt show ?case by (subst diag_loop.simps) simp
qed

lemma diag_print_None: "diag_print cfg str = None \<longleftrightarrow> \<not> be_quiet cfg \<and> 256 \<le> length str"
proof (cases "length str < 256")
  case True
  then show ?thesis by (simp add: diag_print_def diag_loop_terminates)
next
  case False
  then have "diag_loop str 0 = None"
    using diag_loop_Some [of str 0] by (cases "diag_loop str 0") auto
  with False show ?thesis by (simp add: diag_print_def)
qed

text \<open>
  A call instruction fails to return in one case only: a comparison site with exactly one
  resolved operand, diagnostics on, and a candidate of 256 bytes or more.
\<close>

lemma handle_call_None:
  "handle_call cfg ci s = None \<longleftrightarrow>
     (\<exists>f. classify ci = Some f \<and> \<not> isIntMemcpy f \<and>
        HasStr1 (fst (resolve_compare ci (valueMap s))) \<noteq>
          HasStr2 (fst (resolve_compare ci (valueMap s))) \<and>
        \<not> be_quiet cfg \<and>
        256 \<le> length (thestring (candidate_of f ci (fst (resolve_compare ci (valueMap s))))))"
proof (cases "classify ci")
  case None
  then show ?thesis by (simp add: handle_call_def)
next
  case (Some f)
  show ?thesis
  proof (cases "isIntMemcpy f")
    case True
    with Some show ?thesis by (simp add: handle_call_def)
  next
    case False
    have "handle_compare cfg f ci s = None \<longleftrightarrow>
        HasStr1 (fst (resolve_compare ci (valueMap s))) \<noteq>
          HasStr2 (fst (resolve_compare ci (valueMap s))) \<and>
        diag_print cfg (thestring (candidate_of f ci (fst (resolve_compare ci (valueMap s))))) = None"
      by (simp add: handle_compare_def Let_def split: option.splits)
    with Some False show ?thesis
      by (simp add: handle_call_def diag_print_None)
  qed
qed

section \<open>The line buffer\<close>

lemma isprint_not_NUL: "isprint c \<Longrightarrow> c \<noteq> NUL"
  by (auto simp: isprint_def NUL_def)

lemma quote_newline_not_NUL: "dquote \<noteq> NUL" "newline \<noteq> NUL"
  by (simp_all add: dquote_def newline_def NUL_def)

lemma hex_escape_length:
  "length (hex_escape cfg c) = (if char_is_signed cfg \<and> 128 \<le> (of_char c :: nat) then 10 else 4)"
  by (simp add: hex_escape_def)

lemma sprintf_tmp_length:
  "length (sprintf_tmp cfg c) = (if char_is_signed cfg \<and> 128 \<le> (of_char c :: nat) then 10 else 4)"
  by (simp add: sprintf_tmp_def hex_escape_length)

text \<open>
  \<open>sprintf\<close> writes behind \<open>tmp\<close> exactly for a byte above 127 of a signed \<open>char\<close>.
\<close>

lemma tmp_overrun_iff:
  "tmp_overrun cfg c \<longleftrightarrow> char_is_signed cfg \<and> 128 \<le> (of_char c :: nat)"
  by (simp add: tmp_overrun_def sprintf_tmp_length)

lemma escapes_fitD:
  "escapes_fit cfg ptr n L \<Longrightarrow> k < n \<Longrightarrow> n + length (sprintf_tmp cfg (c_str_at ptr k)) < L"
  by (simp add: escapes_fit_def list_all_iff)

text \<open>
  The escape sequences fit when none is longer than four characters and the buffer has five
  bytes more than the bytes to render, and in any case when it has eleven bytes more.
\<close>

lemma escapes_fit_short:
  assumes "n + 5 \<le> L"
    and "\<not> char_is_signed cfg \<or> (\<forall>k<n. (of_char (c_str_at ptr k) :: nat) < 128)"
  shows "escapes_fit cfg ptr n L"
  using assms by (auto simp: escapes_fit_def list_all_iff sprintf_tmp_length)

lemma escapes_fit_long:
  assumes "n + 11 \<le> L"
  shows "escapes_fit cfg ptr n L"
  using assms by (auto simp: escapes_fit_def list_all_iff sprintf_tmp_length)

lemma strlen_prefix:
  assumes "NUL \<notin> set (take j ln)" "j < length ln" "ln ! j = NUL"
  shows "strlen ln = j"
proof -
  have "ln = take j ln @ NUL # drop (Suc j) ln"
    using assms(2,3) by (metis id_take_nth_drop)
  then have "takeWhile (\<lambda>c. c \<noteq> NUL) ln = take j ln"
    using assms(1) by (metis (mono_tags, lifting) takeWhile_tail takeWhile_eq_all_conv
        takeWhile.simps(2) append_Nil2 takeWhile_append2)
  then show ?thesis using assms(2) by (simp add: strlen_def)
qed

text \<open>\<open>line[j] = 0\<close> followed by \<open>strcat(line, s)\<close>.\<close>

lemma terminate_strcat:
  assumes "NUL \<notin> set (take j ln)" "j + length s < length ln"
  shows "poke ln j NUL = Inr (ln[j := NUL])"
    and "strcat (ln[j := NUL]) s = Inr (take j ln @ s @ [NUL] @ drop (j + length s + 1) ln)"
proof -
  from assms(2) have j: "j < length ln" by simp
  then show "poke ln j NUL = Inr (ln[j := NUL])" by (simp add: poke_def)
  have 1: "strlen (ln[j := NUL]) = j"
    using assms(1) j by (intro strlen_prefix) simp_all
  have 2: "NUL \<in> set (ln[j := NUL])"
    using j by (metis length_list_update nth_list_update_eq nth_mem)
  show "strcat (ln[j := NUL]) s = Inr (take j ln @ s @ [NUL] @ drop (j + length s + 1) ln)"
    using assms(2) by (simp add: strcat_def 1 2 put_string_def drop_update_cancel)
qed

lemma written_terminated:
  assumes "NUL \<notin> set xs"
  shows "written (xs @ NUL # ys) = xs"
proof -
  have "takeWhile (\<lambda>c. c \<noteq> NUL) (xs @ NUL # ys) = xs"
    using assms by (subst takeWhile_append2) auto
  then show ?thesis by (simp add: written_def strlen_def)
qed

text \<open>The state of the loop of lines 448 to 466.\<close>

lemma loop_inv_skip:
  assumes "loop_inv cfg ptr n (Suc i) L pre r" and "i < n" and "\<not> isprint (c_str_at ptr i)"
  shows "loop_inv cfg ptr n i L pre r"
proof (cases r)
  case (Inl e)
  with assms(1) show ?thesis by (simp add: loop_inv_def)
next
  case (Inr lj)
  have "[i..<n] = i # [Suc i..<n]"
    using assms(2) by (simp add: upt_conv_Cons)
  with Inr assms(1,3) show ?thesis
    by (auto simp: loop_inv_def)
qed

lemma loop_inv_keep:
  assumes "loop_inv cfg ptr n (Suc i) L (pre @ [c_str_at ptr i]) r" and "i < n"
    and "isprint (c_str_at ptr i)"
  shows "loop_inv cfg ptr n i L pre r"
proof (cases r)
  case (Inl e)
  with assms(1) show ?thesis by (simp add: loop_inv_def)
next
  case (Inr lj)
  have "[i..<n] = i # [Suc i..<n]"
    using assms(2) by (simp add: upt_conv_Cons)
  with Inr assms(1,3) show ?thesis
    by (auto simp: loop_inv_def)
qed

lemma render_loop_inv:
  assumes "n + 5 \<le> length ln" and "j \<le> i + 1" and "NUL \<notin> set (take j ln)" and "i \<le> n"
    and "escapes_fit cfg ptr n (length ln)"
  shows "loop_inv cfg ptr n i (length ln) (take j ln) (render_loop cfg ptr n i ln j)"
  using assms
proof (induction "n - i" arbitrary: i ln j)
  case 0
  then have "i = n" by simp
  with 0 show ?case
    by (simp add: render_loop.simps [of _ _ n n] loop_inv_def)
next
  case (Suc k)
  then have i: "i < n" and k: "k = n - Suc i" by simp_all
  let ?c = "c_str_at ptr i"
  show ?case
  proof (cases "isprint ?c")
    case True
    have jl: "j < length ln" using Suc.prems i by simp
    have t: "take (Suc j) (ln[j := ?c]) = take j ln @ [?c]"
      using jl by (simp add: take_Suc_conv_app_nth)
    have nz: "NUL \<notin> set (take (Suc j) (ln[j := ?c]))"
      unfolding t using Suc.prems(3) isprint_not_NUL [OF True] by auto
    have step: "render_loop cfg ptr n i ln j = render_loop cfg ptr n (Suc i) (ln[j := ?c]) (Suc j)"
      using i True jl by (subst render_loop.simps) (simp add: poke_def)
    have "loop_inv cfg ptr n (Suc i) (length (ln[j := ?c])) (take (Suc j) (ln[j := ?c]))
        (render_loop cfg ptr n (Suc i) (ln[j := ?c]) (Suc j))"
      using Suc.prems i nz by (intro Suc.hyps(1) [OF k]) simp_all
    then have "loop_inv cfg ptr n (Suc i) (length ln) (take j ln @ [?c])
        (render_loop cfg ptr n (Suc i) (ln[j := ?c]) (Suc j))"
      by (simp only: t length_list_update)
    from loop_inv_keep [OF this i True] show ?thesis
      by (simp only: step)
  next
    case False
    show ?thesis
    proof (cases "i + 1 \<noteq> n \<or> ?c \<noteq> NUL")
      case esc: True
      define tmp where "tmp = sprintf_tmp cfg ?c"
      define ln2 where "ln2 = take j ln @ tmp @ [NUL] @ drop (j + length tmp + 1) ln"
      have "n + length tmp < length ln"
        unfolding tmp_def using Suc.prems(5) i by (rule escapes_fitD)
      then have room: "j + length tmp < length ln"
        using Suc.prems(2) i by simp
      have step: "render_loop cfg ptr n i ln j = render_loop cfg ptr n (Suc i) ln2 j"
        using i False esc terminate_strcat [OF Suc.prems(3) room]
        by (subst render_loop.simps) (simp add: ln2_def tmp_def)
      have l2: "length ln2 = length ln" using room by (simp add: ln2_def)
      have t2: "take j ln2 = take j ln" using room by (simp add: ln2_def)
      have "loop_inv cfg ptr n (Suc i) (length ln2) (take j ln2)
          (render_loop cfg ptr n (Suc i) ln2 j)"
        using Suc.prems i by (intro Suc.hyps(1) [OF k]) (simp_all add: l2 t2)
      then have "loop_inv cfg ptr n (Suc i) (length ln) (take j ln)
          (render_loop cfg ptr n (Suc i) ln2 j)"
        by (simp only: l2 t2)
      from loop_inv_skip [OF this i False] show ?thesis
        by (simp only: step)
    next
      case drop: False
      have step: "render_loop cfg ptr n i ln j = render_loop cfg ptr n (Suc i) ln j"
        using i False drop by (subst render_loop.simps) simp
      have "loop_inv cfg ptr n (Suc i) (length ln) (take j ln)
            (render_loop cfg ptr n (Suc i) ln j)"
        using Suc.prems i by (intro Suc.hyps(1) [OF k]) simp_all
      from loop_inv_skip [OF this i False] show ?thesis
        by (simp only: step)
    qed
  qed
qed

lemma c_str_at_map: "n \<le> length str \<Longrightarrow> map (c_str_at str) [0..<n] = take n str"
  by (rule nth_equalityI) (simp_all add: c_str_at_def)

text \<open>
  What \<open>render\<close> leaves in the buffer, whenever the buffer has five bytes more than the
  bytes to render and room for their escape sequences: the opening quote, the bytes for
  which \<open>isprint\<close> holds, in order, the closing quote and the newline. An escape sequence is
  appended at the cursor \<open>j\<close>, which stays where it was, so the next printable byte, or the
  terminator of line 468, is written over its first character: no escape sequence is part
  of what is written to the file.
\<close>

lemma render_result:
  assumes "n + 5 \<le> length ln" and "escapes_fit cfg ptr n (length ln)"
  shows "\<exists>ln'. render cfg ptr n ln = Inr ln' \<and> length ln' = length ln \<and>
           written ln' =
             [dquote] @ filter isprint (map (c_str_at ptr) [0..<n]) @ [dquote, newline]"
proof -
  define ln0 where "ln0 = [dquote, NUL] @ drop 2 ln"
  have c: "strcpy ln [dquote] = Inr ln0"
    using assms(1) by (simp add: strcpy_def put_string_def ln0_def numeral_2_eq_2)
  have l0: "length ln0 = length ln" using assms(1) by (simp add: ln0_def)
  have t0: "take 1 ln0 = [dquote]" by (simp add: ln0_def)
  have inv: "loop_inv cfg ptr n 0 (length ln0) (take 1 ln0) (render_loop cfg ptr n 0 ln0 1)"
    by (rule render_loop_inv) (use assms l0 t0 quote_newline_not_NUL in simp_all)
  then have inv: "loop_inv cfg ptr n 0 (length ln) [dquote] (render_loop cfg ptr n 0 ln0 1)"
    by (simp only: l0 t0)
  show ?thesis
  proof (cases "render_loop cfg ptr n 0 ln0 1")
    case (Inl e)
    with inv show ?thesis
      by (simp add: loop_inv_def)
  next
    case (Inr lj)
    with inv have l1: "length (fst lj) = length ln" and j1: "snd lj \<le> n + 1"
      and nz: "NUL \<notin> set (take (snd lj) (fst lj))"
      and t1: "take (snd lj) (fst lj) =
         [dquote] @ filter isprint (map (c_str_at ptr) [0..<n])"
      by (auto simp: loop_inv_def)
    have room: "snd lj + length [dquote, newline] < length (fst lj)"
      using j1 l1 assms(1) by simp
    note ts = terminate_strcat [OF nz room]
    have r: "render cfg ptr n ln =
        Inr (take (snd lj) (fst lj) @ [dquote, newline] @ [NUL] @
             drop (snd lj + length [dquote, newline] + 1) (fst lj))"
      using Inr by (simp add: render_def c ts)
    have nz2: "NUL \<notin> set (take (snd lj) (fst lj) @ [dquote, newline])"
      using nz quote_newline_not_NUL by auto
    have w: "written ((take (snd lj) (fst lj) @ [dquote, newline]) @ NUL #
             drop (snd lj + length [dquote, newline] + 1) (fst lj)) =
         take (snd lj) (fst lj) @ [dquote, newline]"
      by (rule written_terminated [OF nz2])
    have len: "length (take (snd lj) (fst lj) @ [dquote, newline] @ [NUL] @
             drop (snd lj + length [dquote, newline] + 1) (fst lj)) = length ln"
      using room l1 by simp
    show ?thesis
      unfolding r using w len t1 by simp
  qed
qed

text \<open>The escape sequence of the byte 1 between \<open>a\<close> and \<open>b\<close> is lost.\<close>

lemma render_escape_lost:
  "map_sum id written (render config_example [CHR ''a'', CHR 0x01, CHR ''b''] 3 line_example) =
     Inr [dquote, CHR ''a'', CHR ''b'', dquote, newline]"
  by (simp add: render_def strcpy_def put_string_def line_example_def render_loop.simps
      poke_def c_str_at_def isprint_def NUL_def dquote_def newline_def strcat_def strlen_def
      sprintf_tmp_def hex_escape_def hex_digit_def config_example_def backslash_def
      written_def)

text \<open>
  The emitter, on a buffer of the declared size with room for the escape sequences: it fails
  only by \<open>write\<close> on a closed descriptor, and the line it writes holds the printable bytes
  and no others.
\<close>

lemma emit_result:
  assumes "0 < MAX_AUTO_EXTRA cfg" and "length (line s) = MAX_AUTO_EXTRA cfg * 8"
    and "n \<le> MAX_AUTO_EXTRA cfg" and "escapes_fit cfg str n (length (line s))"
  shows "case emit cfg str n s of
           Inl e \<Rightarrow> e = WriteFailed \<and> \<not> fd_open s
         | Inr s' \<Rightarrow>
             fd_open s \<and> length (line s') = length (line s) \<and>
             dict_file s' = dict_file s @
               [[dquote] @ filter isprint (map (c_str_at str) [0..<n]) @ [dquote, newline]]"
proof -
  have "n + 5 \<le> length (line s)" using assms(1-3) by simp
  from render_result [OF this assms(4)] show ?thesis
    by (auto simp: emit_def split: sum.splits)
qed

lemma emit_succeeds:
  assumes "0 < MAX_AUTO_EXTRA cfg" and "length (line s) = MAX_AUTO_EXTRA cfg * 8"
    and "n \<le> MAX_AUTO_EXTRA cfg" and "escapes_fit cfg str n (length (line s))"
    and "fd_open s"
  shows "\<exists>s'. emit cfg str n s = Inr s' \<and>
           dict_file s' = dict_file s @
             [[dquote] @ filter isprint (map (c_str_at str) [0..<n]) @ [dquote, newline]]"
  using emit_result [OF assms(1-4)] assms(5)
  by (cases "emit cfg str n s") simp_all

text \<open>
  With \<open>MAX_AUTO_EXTRA\<close> at least two, a buffer of the declared size has room for every
  escape sequence, the ten characters of a byte above 127 of a signed \<open>char\<close> included.
\<close>

lemma escapes_fit_line:
  assumes "2 \<le> MAX_AUTO_EXTRA cfg" and "n \<le> MAX_AUTO_EXTRA cfg"
  shows "escapes_fit cfg str n (MAX_AUTO_EXTRA cfg * 8)"
  using assms by (intro escapes_fit_long) simp

lemma filter_isprint_drop_last_zero:
  assumes "list_all isprint (drop_last_zero content)"
  shows "filter isprint content = drop_last_zero content"
proof (cases "content \<noteq> [] \<and> last content = NUL")
  case True
  then have c: "content = butlast content @ [NUL]"
    by (metis append_butlast_last_id)
  have n: "\<not> isprint NUL" by (simp add: isprint_def NUL_def)
  from assms True have "list_all isprint (butlast content)"
    by (simp add: drop_last_zero_def)
  then have "filter isprint (butlast content) = butlast content"
    by (simp add: list_all_iff)
  then have "filter isprint (butlast content @ [NUL]) = butlast content"
    using n by simp
  with c True show ?thesis
    by (simp add: drop_last_zero_def)
next
  case False
  with assms have "list_all isprint content"
    by (auto simp: drop_last_zero_def)
  then have "filter isprint content = content"
    by (simp add: list_all_iff)
  with False show ?thesis by (auto simp: drop_last_zero_def)
qed

section \<open>The concrete inputs, evaluated\<close>

lemma state_example_fields:
  "valueMap state_example = Map.empty" "line state_example = line_example"
  "found state_example = 0" "fd_open state_example" "dict_file state_example = []"
  "closes state_example = 0"
  by (simp_all add: state_example_def)

lemma diag_print_example: "diag_print config_example str = Some ()"
  by (simp add: diag_print_def config_example_def)

subsection \<open>strncmp(x, "abc", 3)\<close>

lemma classify_strncmp_abc: "classify strncmp_abc = Some strncmp_flags"
  by (simp add: classify_def strncmp_abc_def call_of_def strncmp_callee_def int_function_def
      name_flags_def proto_flags_def none_set_def getNumParams_def getParamType_def
      strncmp_flags_def Int8PtrTy_def)

lemma reconcile_strncmp_abc:
  "reconcile strncmp_flags (Some 3) ''abc'' = \<lparr> thestring = ''abc'' @ [NUL], optLen = 4, addedNull = False \<rparr>"
  by (simp add: reconcile_def terminator_rule_def cut_garbage_def append_terminator_def
      length_rule_def find_nul_def strncmp_flags_def NUL_def Let_def)

subsection \<open>strcmp(x, "abc")\<close>

lemma classify_strcmp_abc: "classify strcmp_abc = Some strcmp_flags"
  by (simp add: classify_def strcmp_abc_def call_of_def strcmp_callee_def int_function_def
      name_flags_def proto_flags_def none_set_def getNumParams_def getParamType_def
      strcmp_flags_def Int8PtrTy_def)

lemma resolve_strcmp_abc:
  "resolve_compare strcmp_abc Map.empty =
    (\<lparr> HasStr1 = False, Str1 = [], HasStr2 = True, Str2 = ''abc'' \<rparr>, [10 \<mapsto> None])"
  by (simp add: resolve_compare_def local_rule1_def local_rule2_def global_rule1_def
      global_rule2_def literal_rule_def getConstantStringInfo_def lookup_insert_def
      strcmp_abc_def call_of_def literal_operand_def variable_operand_def)

lemma reconcile_strcmp_abc:
  "reconcile strcmp_flags None ''abc'' =
     \<lparr> thestring = ''abc'' @ [NUL], optLen = 4, addedNull = False \<rparr>"
  by (simp add: reconcile_def terminator_rule_def cut_garbage_def append_terminator_def
      length_rule_def find_nul_def strcmp_flags_def NUL_def Let_def)

lemma render_abc:
  "render config_example (''abc'' @ [NUL]) 4 line_example =
     Inr ([dquote] @ ''abc'' @ [dquote, newline, NUL] @ ''#########################'')"
  by (simp add: render_def strcpy_def put_string_def line_example_def render_loop.simps
      poke_def c_str_at_def isprint_def NUL_def dquote_def newline_def strcat_def strlen_def)

lemma final_length_abc:
  "final_length config_example
     \<lparr> thestring = ''abc'' @ [NUL], optLen = 4, addedNull = False \<rparr> = Some 4"
  by (simp add: final_length_def config_example_def)

lemma handle_strcmp_abc:
  "handle_call config_example strcmp_abc state_example = Some (Inr state_after_abc)"
proof -
  have 1: "handle_call config_example strcmp_abc state_example =
      handle_compare config_example strcmp_flags strcmp_abc state_example"
    by (simp add: handle_call_def classify_strcmp_abc) (simp add: strcmp_flags_def)
  have 2: "candidate_of strcmp_flags strcmp_abc
       \<lparr> HasStr1 = False, Str1 = [], HasStr2 = True, Str2 = ''abc'' \<rparr> =
       \<lparr> thestring = ''abc'' @ [NUL], optLen = 4, addedNull = False \<rparr>"
    using reconcile_strcmp_abc by (simp add: candidate_of_def strcmp_abc_def call_of_def)
  have 4: "emit config_example (''abc'' @ [NUL]) 4
      (state_example\<lparr> valueMap := [10 \<mapsto> None] \<rparr>) = Inr state_after_abc"
    using render_abc
    by (simp add: emit_def state_example_fields state_after_abc_def written_def strlen_def
        NUL_def dquote_def newline_def)
  show ?thesis
    unfolding 1 handle_compare_def Let_def state_example_fields resolve_strcmp_abc
    using 2 4 diag_print_example final_length_abc by simp
qed

subsection \<open>strcmp(x, "abcdef")\<close>

lemma classify_strcmp_abcdef: "classify strcmp_abcdef = Some strcmp_flags"
  by (simp add: classify_def strcmp_abcdef_def call_of_def strcmp_callee_def int_function_def
      name_flags_def proto_flags_def none_set_def getNumParams_def getParamType_def
      strcmp_flags_def Int8PtrTy_def)

lemma resolve_strcmp_abcdef:
  "resolve_compare strcmp_abcdef Map.empty =
    (\<lparr> HasStr1 = False, Str1 = [], HasStr2 = True, Str2 = ''abcdef'' \<rparr>, [10 \<mapsto> None])"
  by (simp add: resolve_compare_def local_rule1_def local_rule2_def global_rule1_def
      global_rule2_def literal_rule_def getConstantStringInfo_def lookup_insert_def
      strcmp_abcdef_def call_of_def literal_operand_def variable_operand_def)

lemma reconcile_strcmp_abcdef:
  "reconcile strcmp_flags None ''abcdef'' =
     \<lparr> thestring = ''abcdef'' @ [NUL], optLen = 7, addedNull = False \<rparr>"
  by (simp add: reconcile_def terminator_rule_def cut_garbage_def append_terminator_def
      length_rule_def find_nul_def strcmp_flags_def NUL_def Let_def)

lemma candidate_strcmp_abcdef:
  "candidate_of strcmp_flags strcmp_abcdef (fst (resolve_compare strcmp_abcdef Map.empty)) =
     \<lparr> thestring = ''abcdef'' @ [NUL], optLen = 7, addedNull = False \<rparr>"
proof -
  have "argOperand2 strcmp_abcdef = None"
    by (simp add: strcmp_abcdef_def call_of_def)
  then show ?thesis
    by (simp add: candidate_of_def resolve_strcmp_abcdef reconcile_strcmp_abcdef)
qed

lemma render_abcd:
  "render config_example ''abcd'' 4 line_example =
     Inr ([dquote] @ ''abcd'' @ [dquote, newline, NUL] @ ''########################'')"
  by (simp add: render_def strcpy_def put_string_def line_example_def render_loop.simps
      poke_def c_str_at_def isprint_def NUL_def dquote_def newline_def strcat_def strlen_def)

lemma render_abcdef:
  "render config_example (''abcdef'' @ [NUL]) 4 line_example =
     Inr ([dquote] @ ''abcd'' @ [dquote, newline, NUL] @ ''########################'')"
  using render_take [of config_example 4 "''abcdef'' @ [NUL]" line_example] render_abcd
  by simp

lemma handle_strcmp_abcdef:
  "handle_call config_example strcmp_abcdef state_example = Some (Inr state_after_abcdef)"
proof -
  have 1: "handle_call config_example strcmp_abcdef state_example =
      handle_compare config_example strcmp_flags strcmp_abcdef state_example"
    by (simp add: handle_call_def classify_strcmp_abcdef) (simp add: strcmp_flags_def)
  have 3: "final_length config_example
     \<lparr> thestring = ''abcdef'' @ [NUL], optLen = 7, addedNull = False \<rparr> = Some 4"
    by (simp add: final_length_def config_example_def)
  have 4: "emit config_example (''abcdef'' @ [NUL]) 4
      (state_example\<lparr> valueMap := [10 \<mapsto> None] \<rparr>) = Inr state_after_abcdef"
    using render_abcdef
    by (simp add: emit_def state_example_fields state_after_abcdef_def written_def strlen_def
        NUL_def dquote_def newline_def)
  show ?thesis
    unfolding 1 handle_compare_def Let_def state_example_fields
    using candidate_strcmp_abcdef 3 4 diag_print_example
    by (simp add: resolve_strcmp_abcdef)
qed

subsection \<open>strcmp(x, "a b")\<close>

lemma classify_strcmp_a_b: "classify strcmp_a_b = Some strcmp_flags"
  by (simp add: classify_def strcmp_a_b_def call_of_def strcmp_callee_def int_function_def
      name_flags_def proto_flags_def none_set_def getNumParams_def getParamType_def
      strcmp_flags_def Int8PtrTy_def)

lemma resolve_strcmp_a_b:
  "resolve_compare strcmp_a_b Map.empty =
    (\<lparr> HasStr1 = False, Str1 = [], HasStr2 = True, Str2 = ''a b'' \<rparr>, [10 \<mapsto> None])"
  by (simp add: resolve_compare_def local_rule1_def local_rule2_def global_rule1_def
      global_rule2_def literal_rule_def getConstantStringInfo_def lookup_insert_def
      strcmp_a_b_def call_of_def literal_operand_def variable_operand_def Let_def)

lemma reconcile_strcmp_a_b:
  "reconcile strcmp_flags None ''a b'' =
     \<lparr> thestring = [CHR ''a'', CHR '' '', CHR ''b'', NUL], optLen = 4, addedNull = False \<rparr>"
  by (simp add: reconcile_def terminator_rule_def cut_garbage_def append_terminator_def
      length_rule_def find_nul_def strcmp_flags_def NUL_def Let_def)

lemma candidate_strcmp_a_b:
  "candidate_of strcmp_flags strcmp_a_b (fst (resolve_compare strcmp_a_b Map.empty)) =
     \<lparr> thestring = [CHR ''a'', CHR '' '', CHR ''b'', NUL], optLen = 4, addedNull = False \<rparr>"
proof -
  have "argOperand2 strcmp_a_b = None"
    by (simp add: strcmp_a_b_def call_of_def)
  then show ?thesis
    by (simp add: candidate_of_def resolve_strcmp_a_b reconcile_strcmp_a_b)
qed

lemma render_a_b:
  "render config_example [CHR ''a'', CHR '' '', CHR ''b'', NUL] 4 line_example =
     Inr ([dquote] @ ''a b'' @ [dquote, newline, NUL] @ ''#########################'')"
  by (simp add: render_def strcpy_def put_string_def line_example_def render_loop.simps
      poke_def c_str_at_def isprint_def NUL_def dquote_def newline_def strcat_def strlen_def)

lemma handle_strcmp_a_b:
  "handle_call config_example strcmp_a_b state_example = Some (Inr state_after_a_b)"
proof -
  have 1: "handle_call config_example strcmp_a_b state_example =
      handle_compare config_example strcmp_flags strcmp_a_b state_example"
    by (simp add: handle_call_def classify_strcmp_a_b) (simp add: strcmp_flags_def)
  have 3: "final_length config_example
     \<lparr> thestring = [CHR ''a'', CHR '' '', CHR ''b'', NUL], optLen = 4, addedNull = False \<rparr> =
     Some 4"
    by (simp add: final_length_def config_example_def)
  have 4: "emit config_example [CHR ''a'', CHR '' '', CHR ''b'', NUL] 4
      (state_example\<lparr> valueMap := [10 \<mapsto> None] \<rparr>) = Inr state_after_a_b"
    using render_a_b
    by (simp add: emit_def state_example_fields state_after_a_b_def written_def strlen_def
        NUL_def dquote_def newline_def)
  show ?thesis
    unfolding 1 handle_compare_def Let_def state_example_fields
    using candidate_strcmp_a_b 3 4 diag_print_example
    by (simp add: resolve_strcmp_a_b)
qed

lemma spec_render_a_b:
  "spec_render [CHR ''a'', CHR '' '', CHR ''b'', NUL] =
     [dquote, CHR ''a'', backslash, CHR ''x'', CHR ''2'', CHR ''0'', CHR ''b'', dquote, newline]"
  by (simp add: spec_render_def spec_byte_def hex_digit_def)

subsection \<open>The two copies and strcmp(x, d)\<close>

lemma classify_copy_AAA: "classify copy_AAA = Some memcpy_flags"
  by (simp add: classify_def copy_AAA_def call_of_def memcpy_callee_def
      name_flags_def proto_flags_def none_set_def memcpy_flags_def)








lemma classify_strcmp_d: "classify strcmp_d = Some strcmp_flags"
  by (simp add: classify_def strcmp_d_def call_of_def strcmp_callee_def int_function_def
      name_flags_def proto_flags_def none_set_def getNumParams_def getParamType_def
      strcmp_flags_def Int8PtrTy_def)

lemma resolve_strcmp_d:
  "resolve_compare strcmp_d [10 \<mapsto> None] =
    (\<lparr> HasStr1 = False, Str1 = [], HasStr2 = False, Str2 = [] \<rparr>, [10 \<mapsto> None, 7 \<mapsto> None])"
  by (simp add: resolve_compare_def local_rule1_def local_rule2_def global_rule1_def
      global_rule2_def literal_rule_def getConstantStringInfo_def lookup_insert_def
      strcmp_d_def call_of_def variable_operand_def Let_def)

lemma handle_strcmp_d_skip:
  assumes "valueMap s = [10 \<mapsto> None]"
  shows "handle_call cfg strcmp_d s = Some (Inr (s\<lparr> valueMap := [10 \<mapsto> None, 7 \<mapsto> None] \<rparr>))"
proof -
  have 1: "handle_call cfg strcmp_d s = handle_compare cfg strcmp_flags strcmp_d s"
    by (simp add: handle_call_def classify_strcmp_d) (simp add: strcmp_flags_def)
  have 3: "HasStr1 (fst (resolve_compare strcmp_d (valueMap s))) =
     HasStr2 (fst (resolve_compare strcmp_d (valueMap s)))"
    unfolding assms by (simp add: resolve_strcmp_d)
  show ?thesis
    unfolding 1 handle_compare_skip [OF 3] assms by (simp add: resolve_strcmp_d)
qed





subsection \<open>The module of two functions\<close>

lemma run_two_functions:
  "run_module config_example two_functions state_example = Some (Inr state_after_two)"
proof -
  define s1 where "s1 = state_after_abc\<lparr> fd_open := False, closes := closes state_after_abc + 1 \<rparr>"
  have 1: "run_function config_example
      \<lparr> isIgnoreFunction = False, basic_blocks = [[Call strcmp_abc]] \<rparr> state_example =
      Some (Inr s1)"
    by (simp add: run_function_def handle_strcmp_abc s1_def)
  have v: "valueMap s1 = [10 \<mapsto> None]"
    by (simp add: s1_def state_after_abc_def)
  have e: "s1\<lparr> valueMap := [10 \<mapsto> None, 7 \<mapsto> None], fd_open := False, closes := closes s1 + 1 \<rparr> =
      state_after_two"
    by (simp add: s1_def state_after_two_def state_after_abc_def state_example_def)
  have 2: "run_function config_example
      \<lparr> isIgnoreFunction = False, basic_blocks = [[Other_instruction], [Call strcmp_d]] \<rparr>
      s1 = Some (Inr state_after_two)"
    using e by (simp add: run_function_def handle_strcmp_d_skip [OF v])
  show ?thesis
    by (simp add: two_functions_def 1 2)
qed

lemma sprintf_tmp_example:
  "sprintf_tmp config_example (CHR 0x01) = [backslash, CHR ''x'', CHR ''0'', CHR ''1'']"
  by (simp add: sprintf_tmp_def hex_escape_def hex_digit_def config_example_def)

section \<open>One resolved operand\<close>

text \<open>
  Claim C1. At a comparison site, when both operands resolve or neither does, the call
  returns with nothing written, nothing counted and the descriptor as it was, and the scan
  goes on; and whenever the call has written an entry, the two flags of line 370 differ and
  exactly one of the two operands resolves, by the literal rule, the global rule or the
  table.
\<close>

theorem compare_emits_only_if_one_resolves:
  assumes "classify callInst = Some f" and "\<not> isIntMemcpy f"
  shows "(spec_resolves (valueMap s) (argOperand0 callInst) =
            spec_resolves (valueMap s) (argOperand1 callInst) \<longrightarrow>
          (\<exists>s'. handle_call cfg callInst s = Some (Inr s') \<and> dict_file s' = dict_file s \<and>
                found s' = found s \<and> fd_open s' = fd_open s \<and> line s' = line s)) \<and>
         (\<forall>s'. handle_call cfg callInst s = Some (Inr s') \<and> dict_file s' \<noteq> dict_file s \<longrightarrow>
            HasStr1 (fst (resolve_compare callInst (valueMap s))) \<noteq>
              HasStr2 (fst (resolve_compare callInst (valueMap s))) \<and>
            spec_resolves (valueMap s) (argOperand0 callInst) \<noteq>
              spec_resolves (valueMap s) (argOperand1 callInst))"
proof (intro conjI impI allI)
  assume eq: "spec_resolves (valueMap s) (argOperand0 callInst) =
    spec_resolves (valueMap s) (argOperand1 callInst)"
  show "\<exists>s'. handle_call cfg callInst s = Some (Inr s') \<and> dict_file s' = dict_file s \<and>
                found s' = found s \<and> fd_open s' = fd_open s \<and> line s' = line s"
    using handle_compare_skip [OF resolves_equal_flags [OF eq], of cfg f] assms
    by (simp add: handle_call_compare)
next
  fix s'
  assume a: "handle_call cfg callInst s = Some (Inr s') \<and> dict_file s' \<noteq> dict_file s"
  then have "handle_compare cfg f callInst s = Some (Inr s')"
    using assms by (simp add: handle_call_compare)
  from handle_compare_Inr [OF this] a
  show d: "HasStr1 (fst (resolve_compare callInst (valueMap s))) \<noteq>
              HasStr2 (fst (resolve_compare callInst (valueMap s)))"
    by auto
  then show "spec_resolves (valueMap s) (argOperand0 callInst) \<noteq>
              spec_resolves (valueMap s) (argOperand1 callInst)"
    by (rule flags_differ_resolves)
qed

theorem compare_emits_only_if_one_resolves_witness:
  "classify strcmp_abc = Some strcmp_flags \<and> \<not> isIntMemcpy strcmp_flags \<and>
   handle_call config_example strcmp_abc state_example = Some (Inr state_after_abc) \<and>
   dict_file state_after_abc \<noteq> dict_file state_example \<and>
   spec_resolves (valueMap state_example) (argOperand0 strcmp_abc) \<noteq>
     spec_resolves (valueMap state_example) (argOperand1 strcmp_abc) \<and>
   classify strcmp_d = Some strcmp_flags \<and>
   spec_resolves (valueMap state_example) (argOperand0 strcmp_d) =
     spec_resolves (valueMap state_example) (argOperand1 strcmp_d) \<and>
   map_option (map_sum id dict_file) (handle_call config_example strcmp_d state_example) =
     Some (Inr (dict_file state_example))"
proof -
  have f: "\<not> isIntMemcpy strcmp_flags"
    by (simp add: strcmp_flags_def)
  have d: "dict_file state_after_abc \<noteq> dict_file state_example"
    by (simp add: state_after_abc_def state_example_def)
  have e: "spec_resolves (valueMap state_example) (argOperand0 strcmp_d) =
     spec_resolves (valueMap state_example) (argOperand1 strcmp_d)"
    by (simp add: spec_resolves_def strcmp_d_def call_of_def variable_operand_def
        state_example_fields binding_def)
  from compare_emits_only_if_one_resolves [OF classify_strcmp_abc f,
      of state_example config_example] handle_strcmp_abc d
  have 1: "spec_resolves (valueMap state_example) (argOperand0 strcmp_abc) \<noteq>
     spec_resolves (valueMap state_example) (argOperand1 strcmp_abc)"
    by blast
  from compare_emits_only_if_one_resolves [OF classify_strcmp_d f,
      of state_example config_example] e
  have 2: "map_option (map_sum id dict_file)
      (handle_call config_example strcmp_d state_example) =
     Some (Inr (dict_file state_example))"
    by auto
  from 1 2 e f d show ?thesis
    by (simp add: classify_strcmp_abc classify_strcmp_d handle_strcmp_abc)
qed

section \<open>The length of an entry\<close>

text \<open>
  Claim C2. When a comparison site has written an entry, the number \<open>n\<close> of bytes rendered is
  the length of the candidate's content cut down to \<open>MAX_AUTO_EXTRA\<close>, it lies between
  \<open>MIN_AUTO_EXTRA\<close> and \<open>MAX_AUTO_EXTRA\<close>, and the line written is the rendering of the
  first \<open>n\<close> bytes of the content and of nothing behind them. A candidate whose content is
  shorter than \<open>MIN_AUTO_EXTRA\<close> writes nothing.
\<close>

theorem emitted_entry_length:
  assumes "classify callInst = Some f" and "\<not> isIntMemcpy f"
    and "handle_call cfg callInst s = Some (Inr s')"
  shows "(dict_file s' \<noteq> dict_file s \<longrightarrow>
           (\<exists>n ln. n = min (length (thestring (candidate_of f callInst
                        (fst (resolve_compare callInst (valueMap s))))))
                      (MAX_AUTO_EXTRA cfg) \<and>
              MIN_AUTO_EXTRA cfg \<le> n \<and> n \<le> MAX_AUTO_EXTRA cfg \<and>
              render cfg (take n (thestring (candidate_of f callInst
                   (fst (resolve_compare callInst (valueMap s)))))) n (line s) = Inr ln \<and>
              dict_file s' = dict_file s @ [written ln])) \<and>
         (length (thestring (candidate_of f callInst
              (fst (resolve_compare callInst (valueMap s))))) < MIN_AUTO_EXTRA cfg \<longrightarrow>
            dict_file s' = dict_file s)"
proof -
  let ?c = "candidate_of f callInst (fst (resolve_compare callInst (valueMap s)))"
  have h: "handle_compare cfg f callInst s = Some (Inr s')"
    using assms by (simp add: handle_call_compare)
  from handle_compare_Inr [OF h]
  consider (skip) "s' = s\<lparr> valueMap := snd (resolve_compare callInst (valueMap s)) \<rparr>"
    | (emit) n where "final_length cfg ?c = Some n"
      "emit cfg (thestring ?c) n (s\<lparr> valueMap := snd (resolve_compare callInst (valueMap s)) \<rparr>) = Inr s'"
    by blast
  then show ?thesis
  proof cases
    case skip
    then show ?thesis by simp
  next
    case emit
    from emit_Inr [OF emit(2)] obtain ln where
      ln: "render cfg (thestring ?c) n (line s) = Inr ln"
        "dict_file s' = dict_file s @ [written ln]"
      by auto
    have fl: "n = min (length (thestring ?c)) (MAX_AUTO_EXTRA cfg) \<and>
        MIN_AUTO_EXTRA cfg \<le> n"
      by (rule iffD1 [OF final_length_Some emit(1)])
    then have n: "n = min (length (thestring ?c)) (MAX_AUTO_EXTRA cfg)"
      and m: "MIN_AUTO_EXTRA cfg \<le> n"
      by blast+
    from n m have "\<not> length (thestring ?c) < MIN_AUTO_EXTRA cfg" by arith
    moreover from n have "n \<le> MAX_AUTO_EXTRA cfg" by arith
    ultimately show ?thesis
      using n m ln by (auto simp: render_take)
  qed
qed

theorem emitted_entry_length_witness:
  "classify strcmp_abcdef = Some strcmp_flags \<and> \<not> isIntMemcpy strcmp_flags \<and>
   handle_call config_example strcmp_abcdef state_example = Some (Inr state_after_abcdef) \<and>
   dict_file state_after_abcdef \<noteq> dict_file state_example \<and>
   length (thestring (candidate_of strcmp_flags strcmp_abcdef
     (fst (resolve_compare strcmp_abcdef (valueMap state_example))))) = 7 \<and>
   MIN_AUTO_EXTRA config_example = 3 \<and> MAX_AUTO_EXTRA config_example = 4 \<and>
   render config_example (take 4 (thestring (candidate_of strcmp_flags strcmp_abcdef
     (fst (resolve_compare strcmp_abcdef (valueMap state_example)))))) 4 (line state_example) =
     Inr (line state_after_abcdef) \<and>
   dict_file state_after_abcdef = dict_file state_example @ [written (line state_after_abcdef)]"
proof -
  have f: "\<not> isIntMemcpy strcmp_flags" by (simp add: strcmp_flags_def)
  have d: "dict_file state_after_abcdef \<noteq> dict_file state_example"
    by (simp add: state_after_abcdef_def state_example_def)
  have w: "dict_file state_after_abcdef = dict_file state_example @ [written (line state_after_abcdef)]"
    by (simp add: state_after_abcdef_def state_example_def written_def strlen_def
        NUL_def dquote_def newline_def)
  have r: "render config_example (take 4 (''abcdef'' @ [NUL])) 4 line_example =
     Inr (line state_after_abcdef)"
    using render_abcd by (simp add: state_after_abcdef_def)
  have c: "MIN_AUTO_EXTRA config_example = 3" "MAX_AUTO_EXTRA config_example = 4"
    by (simp_all add: config_example_def)
  from emitted_entry_length [OF classify_strcmp_abcdef f handle_strcmp_abcdef] d w r c
  show ?thesis
    by (simp add: classify_strcmp_abcdef f handle_strcmp_abcdef state_example_fields
        candidate_strcmp_abcdef)
qed

section \<open>The kinds the terminator is for\<close>

text \<open>
  Claim C3, as the code has it. For a classified call of one of the five comparison names,
  the terminator (when none was added by the \<open>N = L + 1\<close> rule) and the cut at the first zero
  byte are applied for every name but \<open>memcmp\<close>: for \<open>strcmp\<close> and \<open>strcasecmp\<close>, and for
  the bounded \<open>strncmp\<close> and \<open>strncasecmp\<close> as well.
\<close>

theorem reconcile_by_kind:
  assumes "classify callInst = Some f" and "getCalledFunction callInst = Some Callee"
    and "comparison_name (getName Callee)"
  shows "reconcile f op2 str =
     (if getName Callee = ''memcmp'' then length_rule f op2 str
      else cut_garbage (append_terminator (length_rule f op2 str)))"
  using isMemcmp_classify [OF assms] by (simp add: reconcile_def terminator_rule_def)

theorem reconcile_by_kind_witness:
  "classify strncmp_abc = Some strncmp_flags \<and>
   getCalledFunction strncmp_abc = Some strncmp_callee \<and>
   comparison_name (getName strncmp_callee) \<and>
   reconcile strncmp_flags (Some 3) ''abc'' =
     cut_garbage (append_terminator (length_rule strncmp_flags (Some 3) ''abc''))"
proof -
  have 1: "getCalledFunction strncmp_abc = Some strncmp_callee"
    by (simp add: strncmp_abc_def call_of_def)
  have 2: "comparison_name (getName strncmp_callee)"
    by (simp add: comparison_name_def strncmp_callee_def int_function_def)
  have 3: "getName strncmp_callee \<noteq> ''memcmp''"
    by (simp add: strncmp_callee_def int_function_def)
  from reconcile_by_kind [OF classify_strncmp_abc 1 2, of "Some 3" "''abc''"] 1 2 3
  show ?thesis by (simp add: classify_strncmp_abc)
qed

text \<open>
  Claim C3 as stated keeps the two steps from the bounded kinds. For \<open>strncmp(x, "abc", 3)\<close>
  the code appends the terminator, where the reconciler of the specification leaves the
  three bytes alone.
\<close>

theorem reconcile_strncmp_counterexample:
  "classify strncmp_abc = Some strncmp_flags \<and>
   thestring (reconcile strncmp_flags (argOperand2 strncmp_abc) ''abc'') = ''abc'' @ [NUL] \<and>
   thestring (spec_reconcile strncmp_flags (argOperand2 strncmp_abc) ''abc'') = ''abc''"
proof -
  have 1: "argOperand2 strncmp_abc = Some 3"
    by (simp add: strncmp_abc_def call_of_def)
  have 2: "thestring (spec_reconcile strncmp_flags (Some 3) ''abc'') = ''abc''"
    by (simp add: spec_reconcile_def length_rule_def strncmp_flags_def)
  show ?thesis
    unfolding 1 using 2 by (simp add: classify_strncmp_abc reconcile_strncmp_abc)
qed

section \<open>The rendering of an entry\<close>

text \<open>
  Claim C4, as the code has it by design. When the bytes to render are all printable in the
  sense of \<open>isprint\<close>, from the space (32) to the tilde (126), but for a zero byte that may
  come last, the emitter succeeds on an open descriptor and the line it writes is a double
  quote, these bytes verbatim without the zero byte in last position, a double quote and a
  newline. What becomes of any other byte is left open here.
\<close>

theorem emit_printable_verbatim:
  assumes "0 < MAX_AUTO_EXTRA cfg" and "length (line s) = MAX_AUTO_EXTRA cfg * 8"
    and "n \<le> MAX_AUTO_EXTRA cfg" and "n \<le> length str" and "fd_open s"
    and "list_all isprint (drop_last_zero (take n str))"
  shows "\<exists>s'. emit cfg str n s = Inr s' \<and>
           dict_file s' = dict_file s @
             [[dquote] @ drop_last_zero (take n str) @ [dquote, newline]]"
proof -
  have f: "filter isprint (map (c_str_at str) [0..<n]) = drop_last_zero (take n str)"
    using assms(4,6) by (simp add: c_str_at_map filter_isprint_drop_last_zero)
  have small: "\<forall>k<n. (of_char (c_str_at str k) :: nat) < 128"
  proof (intro allI impI)
    fix k
    assume k: "k < n"
    have "c_str_at str k \<in> set (take n str)"
      using k assms(4) by (auto simp: c_str_at_def in_set_conv_nth intro!: exI [of _ k])
    moreover have "set (take n str) \<subseteq> set (drop_last_zero (take n str)) \<union> {NUL}"
      by (auto simp: drop_last_zero_def dest: in_set_butlastD)
         (metis append_butlast_last_id Un_iff insert_iff set_append list.set(2))
    ultimately have "isprint (c_str_at str k) \<or> c_str_at str k = NUL"
      using assms(6) by (auto simp: list_all_iff)
    then show "(of_char (c_str_at str k) :: nat) < 128"
      by (auto simp: isprint_def NUL_def)
  qed
  have "n + 5 \<le> length (line s)"
    using assms(1-3) by simp
  then have fit: "escapes_fit cfg str n (length (line s))"
    using small by (intro escapes_fit_short) simp_all
  from emit_succeeds [OF assms(1-3) fit assms(5)] f show ?thesis
    by simp
qed

theorem emit_printable_verbatim_witness:
  "0 < MAX_AUTO_EXTRA config_example \<and>
   length (line state_example) = MAX_AUTO_EXTRA config_example * 8 \<and>
   4 \<le> MAX_AUTO_EXTRA config_example \<and>
   4 \<le> length [CHR ''a'', CHR '' '', CHR ''b'', NUL] \<and> fd_open state_example \<and>
   list_all isprint (drop_last_zero (take 4 [CHR ''a'', CHR '' '', CHR ''b'', NUL])) \<and>
   (\<exists>s'. emit config_example [CHR ''a'', CHR '' '', CHR ''b'', NUL] 4 state_example = Inr s' \<and>
      dict_file s' = [[dquote, CHR ''a'', CHR '' '', CHR ''b'', dquote, newline]])"
proof -
  have 1: "0 < MAX_AUTO_EXTRA config_example" "4 \<le> MAX_AUTO_EXTRA config_example"
    by (simp_all add: config_example_def)
  have 2: "length (line state_example) = MAX_AUTO_EXTRA config_example * 8"
    by (simp add: state_example_def line_example_def config_example_def)
  have 3: "4 \<le> length [CHR ''a'', CHR '' '', CHR ''b'', NUL]"
    by simp
  have d: "drop_last_zero (take 4 [CHR ''a'', CHR '' '', CHR ''b'', NUL]) = ''a b''"
    by (simp add: drop_last_zero_def)
  have 4: "list_all isprint (drop_last_zero (take 4 [CHR ''a'', CHR '' '', CHR ''b'', NUL]))"
    unfolding d by (simp add: isprint_def)
  from emit_printable_verbatim [OF 1(1) 2 1(2) 3 state_example_fields(4) 4]
  have "\<exists>s'. emit config_example [CHR ''a'', CHR '' '', CHR ''b'', NUL] 4 state_example = Inr s' \<and>
      dict_file s' = [[dquote, CHR ''a'', CHR '' '', CHR ''b'', dquote, newline]]"
    unfolding d by (simp add: state_example_fields)
  with 1 2 3 4 state_example_fields(4) show ?thesis by blast
qed

text \<open>
  Claim C4 as stated renders the bytes 33 to 126 verbatim and every other byte as an escape
  sequence. For \<open>strcmp(x, "a b")\<close> the space is written verbatim: line 450 asks
  \<open>isprint\<close>, which holds of the space.
\<close>

theorem render_space_counterexample:
  "handle_call config_example strcmp_a_b state_example = Some (Inr state_after_a_b) \<and>
   thestring (candidate_of strcmp_flags strcmp_a_b
     (fst (resolve_compare strcmp_a_b (valueMap state_example)))) =
     [CHR ''a'', CHR '' '', CHR ''b'', NUL] \<and>
   dict_file state_after_a_b = [[dquote, CHR ''a'', CHR '' '', CHR ''b'', dquote, newline]] \<and>
   spec_render [CHR ''a'', CHR '' '', CHR ''b'', NUL] =
     [dquote, CHR ''a'', backslash, CHR ''x'', CHR ''2'', CHR ''0'', CHR ''b'', dquote, newline]"
proof -
  have d: "dict_file state_after_a_b =
      [[dquote, CHR ''a'', CHR '' '', CHR ''b'', dquote, newline]]"
    by (simp add: state_after_a_b_def state_example_def)
  from handle_strcmp_a_b candidate_strcmp_a_b d spec_render_a_b show ?thesis
    by (simp add: state_example_fields)
qed

section \<open>The signature of a comparison\<close>

text \<open>
  Claim C5, as the code has it. A call whose callee name is one of the five comparison
  names is classified only when the callee is resolved, the calling convention is the
  default one, and the declared signature has two pointer-typed data parameters (of
  identical type, except for \<open>memcmp\<close>), a third integer parameter for the bounded and
  memcmp variants, and an integer return type. A call through an unresolved target or with
  another calling convention is never classified.
\<close>

theorem classify_comparison_signature:
  "(getCalledFunction callInst = None \<longrightarrow> classify callInst = None) \<and>
   (getCallingConv callInst \<noteq> CallingConv_C \<longrightarrow> classify callInst = None) \<and>
   (\<forall>Callee. getCalledFunction callInst = Some Callee \<and> comparison_name (getName Callee) \<and>
       classify callInst \<noteq> None \<longrightarrow>
       code_signature (getName Callee) (getFunctionType Callee))"
proof (intro conjI allI impI)
  show "classify callInst = None" if "getCalledFunction callInst = None"
    using that by (simp add: classify_def)
  show "classify callInst = None" if "getCallingConv callInst \<noteq> CallingConv_C"
    using that by (simp add: classify_def split: option.splits)
next
  fix Callee
  assume a: "getCalledFunction callInst = Some Callee \<and> comparison_name (getName Callee) \<and>
    classify callInst \<noteq> None"
  let ?n = "getName Callee" and ?FT = "getFunctionType Callee"
  from a have ns: "\<not> none_set (proto_flags ?FT (name_flags ?n))"
    by (auto simp: classify_def split: if_splits)
  from a have "comparison_name ?n" by simp
  then consider "?n = ''strcmp''" | "?n = ''memcmp''" | "?n = ''strncmp''"
    | "?n = ''strcasecmp''" | "?n = ''strncasecmp''"
    by (auto simp: comparison_name_def)
  then show "code_signature ?n ?FT"
  proof cases
    case 1
    with ns show ?thesis
      by (auto simp: none_set_def proto_flags_def name_flags_def code_signature_def
          bounded_name_def isPointerTy_Int8PtrTy isIntegerTy_width_imp)
  next
    case 2
    with ns show ?thesis
      by (auto simp: none_set_def proto_flags_def name_flags_def code_signature_def
          bounded_name_def isIntegerTy_width_imp)
  next
    case 3
    with ns show ?thesis
      by (auto simp: none_set_def proto_flags_def name_flags_def code_signature_def
          bounded_name_def isPointerTy_Int8PtrTy isIntegerTy_width_imp)
  next
    case 4
    with ns show ?thesis
      by (auto simp: none_set_def proto_flags_def name_flags_def code_signature_def
          bounded_name_def isPointerTy_Int8PtrTy isIntegerTy_width_imp)
  next
    case 5
    with ns show ?thesis
      by (auto simp: none_set_def proto_flags_def name_flags_def code_signature_def
          bounded_name_def isPointerTy_Int8PtrTy isIntegerTy_width_imp)
  qed
qed

theorem classify_comparison_signature_witness:
  "getCalledFunction strncmp_abc = Some strncmp_callee \<and>
   comparison_name (getName strncmp_callee) \<and>
   getCallingConv strncmp_abc = CallingConv_C \<and>
   classify strncmp_abc \<noteq> None \<and>
   code_signature (getName strncmp_callee) (getFunctionType strncmp_callee)"
  using classify_comparison_signature [of strncmp_abc] classify_strncmp_abc
  by (simp add: strncmp_abc_def call_of_def comparison_name_def strncmp_callee_def
      int_function_def)

text \<open>
  Claim C5 as stated asks for two data parameters of identical pointer type for every
  comparison kind. A \<open>memcmp\<close> declared with an \<open>i8*\<close> and an \<open>i32*\<close> is classified all
  the same: line 193 asks each parameter to be a pointer and nothing more.
\<close>

theorem classify_memcmp_mixed_counterexample:
  "getCalledFunction memcmp_mixed_call =
     Some \<lparr> getName = ''memcmp'', getFunctionType = memcmp_mixed_type \<rparr> \<and>
   classify memcmp_mixed_call \<noteq> None \<and>
   \<not> spec_signature ''memcmp'' memcmp_mixed_type"
  by (simp add: classify_def memcmp_mixed_call_def memcmp_mixed_type_def
      name_flags_def proto_flags_def none_set_def getNumParams_def getParamType_def
      spec_signature_def Int8PtrTy_def)

section \<open>The table of local bindings\<close>











section \<open>The copy site\<close>

lemma word_succ_of_length:
  "unat (N :: 64 word) = L + 1 \<Longrightarrow> (of_nat L :: 64 word) + 1 = N"
proof -
  assume a: "unat N = L + 1"
  have "N = of_nat (unat N)" by simp
  also have "\<dots> = of_nat L + 1" by (simp only: a of_nat_add of_nat_1)
  finally show ?thesis by simp
qed

lemma memcpy_string_terminated:
  "unat N = length str + 1 \<Longrightarrow> memcpy_string (Some N) str = str @ [NUL]"
  by (simp add: memcpy_string_def word_succ_of_length)

text \<open>
  A copy site returns with nothing written to the dictionary and nothing counted. When the
  flag of its source is set at line 282, the string of lines 221 to 276 is stored in the
  table under the destination, followed by one zero byte when the constant third operand is
  its length plus one. That string is the one the first two rules of the specification give
  for the source whenever the destination is not itself a non-empty constant string.
\<close>

lemma copy_site_stores:
  assumes "classify callInst = Some f" and "isIntMemcpy f"
  shows "handle_call cfg callInst s = Some (Inr (handle_memcpy callInst s)) \<and>
         dict_file (handle_memcpy callInst s) = dict_file s \<and>
         found (handle_memcpy callInst s) = found s \<and>
         (HasStr2 (global_rule2 callInst (literal_rule callInst)) \<longrightarrow>
            valueMap (handle_memcpy callInst s) (value_id (argOperand0 callInst)) =
              Some (Some (memcpy_string (argOperand2 callInst)
                 (Str2 (global_rule2 callInst (literal_rule callInst))))) \<and>
            (\<forall>N. argOperand2 callInst = Some N \<and>
                 unat N = length (Str2 (global_rule2 callInst (literal_rule callInst))) + 1 \<longrightarrow>
               valueMap (handle_memcpy callInst s) (value_id (argOperand0 callInst)) =
                 Some (Some (Str2 (global_rule2 callInst (literal_rule callInst)) @ [NUL])))) \<and>
         (\<forall>str N. \<not> HasStr1 (literal_rule callInst) \<and>
              spec_resolve_static (argOperand1 callInst) = Some str \<and>
              argOperand2 callInst = Some N \<and> unat N = length str + 1 \<longrightarrow>
            valueMap (handle_memcpy callInst s) (value_id (argOperand0 callInst)) =
              Some (Some (str @ [NUL])))"
proof -
  have "valueMap (handle_memcpy callInst s) (value_id (argOperand0 callInst)) =
      Some (Some (str @ [NUL]))"
    if "\<not> HasStr1 (literal_rule callInst)"
      and "spec_resolve_static (argOperand1 callInst) = Some str"
      and "argOperand2 callInst = Some N" and "unat N = length str + 1" for str N
    using static_resolution [OF that(1,2)] that(3,4)
    by (simp add: handle_memcpy_def Let_def memcpy_string_terminated)
  then show ?thesis
    using assms
    by (auto simp: handle_call_memcpy handle_memcpy_def Let_def memcpy_string_terminated)
qed

lemma classify_copy_xy:
  "classify copy_abc_xy = Some memcpy_flags" "classify copy_d_xy = Some memcpy_flags"
  using classify_copy_AAA
  by (simp_all add: classify_def copy_abc_xy_def copy_d_xy_def copy_AAA_def call_of_def)

text \<open>
  Claim C7 has a copy site whose source resolves by the global rule to \<open>L\<close> bytes, and whose
  length is \<open>L + 1\<close>, store these bytes and one zero byte under the destination. The code
  does so at \<open>memcpy(d, g, 3)\<close>, and not at \<open>memcpy("abc", g, 3)\<close>: the second call of
  \<open>getConstantStringInfo\<close> fails on \<open>g\<close> and leaves \<open>TmpStr\<close> at \<open>abc\<close>, line 240 sets the
  flag, line 253 skips the global rule, and line 299 stores \<open>abc\<close>, the constant of the
  destination, with no zero byte, where the comment of line 278 has the copy site care for
  the second parameter only.
\<close>

theorem copy_site_literal_destination:
  "classify copy_abc_xy = Some memcpy_flags \<and>
   constantString (argOperand1 copy_abc_xy) = None \<and>
   spec_resolve_static (argOperand1 copy_abc_xy) = Some ''xy'' \<and>
   argOperand2 copy_abc_xy = Some 3 \<and> unat (3 :: 64 word) = length ''xy'' + 1 \<and>
   value_id (argOperand0 copy_abc_xy) = 2 \<and>
   Str2 (global_rule2 copy_abc_xy (literal_rule copy_abc_xy)) = ''abc'' \<and>
   handle_call config_example copy_abc_xy state_example = Some (Inr state_after_copy_abc_xy) \<and>
   valueMap state_after_copy_abc_xy 2 = Some (Some ''abc'') \<and>
   classify copy_d_xy = Some memcpy_flags \<and>
   argOperand1 copy_d_xy = argOperand1 copy_abc_xy \<and>
   argOperand2 copy_d_xy = argOperand2 copy_abc_xy \<and>
   value_id (argOperand0 copy_d_xy) = 7 \<and>
   handle_call config_example copy_d_xy state_example = Some (Inr state_after_copy_d_xy) \<and>
   valueMap state_after_copy_d_xy 7 = Some (Some [CHR ''x'', CHR ''y'', NUL])"
proof -
  have f: "isIntMemcpy memcpy_flags" by (simp add: memcpy_flags_def)
  have a: "constantString (argOperand1 copy_abc_xy) = None"
    "spec_resolve_static (argOperand1 copy_abc_xy) = Some ''xy''"
    "argOperand2 copy_abc_xy = Some 3" "value_id (argOperand0 copy_abc_xy) = 2"
    "argOperand1 copy_d_xy = argOperand1 copy_abc_xy"
    "argOperand2 copy_d_xy = argOperand2 copy_abc_xy"
    "value_id (argOperand0 copy_d_xy) = 7"
    by (simp_all add: copy_abc_xy_def copy_d_xy_def call_of_def global_xy_def
        literal_operand_def variable_operand_def spec_resolve_static_def)
  have r: "global_rule2 copy_abc_xy (literal_rule copy_abc_xy) =
      \<lparr> HasStr1 = True, Str1 = ''abc'', HasStr2 = True, Str2 = ''abc'' \<rparr>"
    by (simp add: global_rule2_def literal_rule_def getConstantStringInfo_def copy_abc_xy_def
        call_of_def global_xy_def literal_operand_def Let_def)
  have r': "global_rule2 copy_d_xy (literal_rule copy_d_xy) =
      \<lparr> HasStr1 = False, Str1 = [], HasStr2 = True, Str2 = ''xy'' \<rparr>"
    by (simp add: global_rule2_def literal_rule_def getConstantStringInfo_def copy_d_xy_def
        call_of_def global_xy_def variable_operand_def Let_def)
  have h: "handle_memcpy copy_abc_xy state_example = state_after_copy_abc_xy"
    by (simp add: handle_memcpy_def r a memcpy_string_def state_after_copy_abc_xy_def
        state_example_fields)
  have h': "handle_memcpy copy_d_xy state_example = state_after_copy_d_xy"
    by (simp add: handle_memcpy_def r' a memcpy_string_def state_after_copy_d_xy_def
        state_example_fields)
  have c: "handle_call config_example copy_abc_xy state_example =
      Some (Inr state_after_copy_abc_xy)"
    by (simp add: handle_call_def classify_copy_xy f h)
  have c': "handle_call config_example copy_d_xy state_example =
      Some (Inr state_after_copy_d_xy)"
    by (simp add: handle_call_def classify_copy_xy f h')
  have v: "valueMap state_after_copy_abc_xy 2 = Some (Some ''abc'')"
    "valueMap state_after_copy_d_xy 7 = Some (Some [CHR ''x'', CHR ''y'', NUL])"
    by (simp_all add: state_after_copy_abc_xy_def state_after_copy_d_xy_def)
  from a r c c' v classify_copy_xy show ?thesis
    by simp
qed

section \<open>Closing the descriptor\<close>

lemma handle_memcpy_fd: "fd_open (handle_memcpy ci s) = fd_open s" "closes (handle_memcpy ci s) = closes s"
  by (simp_all add: handle_memcpy_def Let_def)

lemma handle_compare_fd:
  "handle_compare cfg f ci s = Some (Inr s') \<Longrightarrow> fd_open s' = fd_open s \<and> closes s' = closes s"
  by (drule handle_compare_Inr) (auto dest!: emit_Inr)

lemma handle_call_fd:
  "handle_call cfg ci s = Some (Inr s') \<Longrightarrow> fd_open s' = fd_open s \<and> closes s' = closes s"
  by (auto simp: handle_call_def handle_memcpy_fd split: option.splits if_splits dest: handle_compare_fd)

lemma run_block_fd:
  "run_block cfg INs s = Some (Inr s') \<Longrightarrow> fd_open s' = fd_open s \<and> closes s' = closes s"
proof (induction cfg INs s rule: run_block.induct)
  case (3 cfg callInst INs s)
  then show ?case
    by (auto split: option.splits sum.splits dest: handle_call_fd)
qed simp_all

lemma run_blocks_fd:
  "run_blocks cfg BBs s = Some (Inr s') \<Longrightarrow> fd_open s' = fd_open s \<and> closes s' = closes s"
proof (induction BBs arbitrary: s)
  case (Cons BB BBs)
  then show ?case
    by (auto split: option.splits sum.splits dest: run_block_fd)
qed simp

lemma run_function_fd:
  assumes "run_function cfg F s = Some (Inr s')"
  shows "if isIgnoreFunction F then fd_open s' = fd_open s \<and> closes s' = closes s
         else \<not> fd_open s' \<and> closes s' = closes s + 1"
  using assms
  by (auto simp: run_function_def split: if_splits option.splits sum.splits dest: run_blocks_fd)

text \<open>
  Claim C8. \<open>close(fd)\<close> is called once after each function that is scanned, not once
  after the module: when the loop over the module returns, the number of calls has grown by
  the number of scanned functions, and the descriptor is closed as soon as one function was
  scanned.
\<close>

theorem handle_closed_per_function:
  assumes "run_module cfg M s = Some (Inr s')"
  shows "closes s' = closes s + length (scanned M) \<and>
         (scanned M \<noteq> [] \<longrightarrow> \<not> fd_open s') \<and>
         (scanned M = [] \<longrightarrow> fd_open s' = fd_open s)"
  using assms
proof (induction M arbitrary: s)
  case Nil
  then show ?case by (simp add: scanned_def)
next
  case (Cons F Fs)
  from Cons.prems obtain s1 where
    1: "run_function cfg F s = Some (Inr s1)" and 2: "run_module cfg Fs s1 = Some (Inr s')"
    by (auto split: option.splits sum.splits)
  from Cons.IH [OF 2] run_function_fd [OF 1]
  show ?case
    by (cases "isIgnoreFunction F") (auto simp: scanned_def)
qed

theorem handle_closed_per_function_witness:
  "run_module config_example two_functions state_example = Some (Inr state_after_two) \<and>
   scanned two_functions \<noteq> [] \<and> length (scanned two_functions) = 2 \<and>
   closes state_example = 0 \<and> closes state_after_two = 2 \<and> \<not> fd_open state_after_two \<and>
   scanned [] = ([] :: func list) \<and>
   run_module config_example [] state_example = Some (Inr state_example)"
proof -
  have 1: "scanned two_functions \<noteq> []" "length (scanned two_functions) = 2"
    by (simp_all add: scanned_def two_functions_def)
  have 2: "closes state_after_two = 2" "\<not> fd_open state_after_two"
    by (simp_all add: state_after_two_def)
  have 3: "scanned [] = ([] :: func list)"
    by (simp add: scanned_def)
  have 4: "run_module config_example [] state_example = Some (Inr state_example)"
    by simp
  from handle_closed_per_function [OF run_two_functions] 1 2 3 4 run_two_functions
    state_example_fields(6)
  show ?thesis by blast
qed

text \<open>
  With the descriptor closed after the first function, the first entry of a later function
  cannot be written and the run aborts.
\<close>

lemma second_writer_aborts:
  "run_module config_example two_writers state_example = Some (Inl WriteFailed)"
proof -
  define s1 where "s1 = state_after_abc\<lparr> fd_open := False, closes := closes state_after_abc + 1 \<rparr>"
  have 1: "run_function config_example
      \<lparr> isIgnoreFunction = False, basic_blocks = [[Call strcmp_abc]] \<rparr> state_example =
      Some (Inr s1)"
    by (simp add: run_function_def handle_strcmp_abc s1_def)
  have c: "handle_call config_example strcmp_abc s1 =
      handle_compare config_example strcmp_flags strcmp_abc s1"
    by (simp add: handle_call_def classify_strcmp_abc) (simp add: strcmp_flags_def)
  have v: "valueMap s1 = [10 \<mapsto> None]" "line s1 = line state_after_abc" "\<not> fd_open s1"
    by (simp_all add: s1_def state_after_abc_def)
  have r: "resolve_compare strcmp_abc [10 \<mapsto> None] =
    (\<lparr> HasStr1 = False, Str1 = [], HasStr2 = True, Str2 = ''abc'' \<rparr>, [10 \<mapsto> None])"
    by (simp add: resolve_compare_def local_rule1_def local_rule2_def global_rule1_def
      global_rule2_def literal_rule_def getConstantStringInfo_def lookup_insert_def
      strcmp_abc_def call_of_def literal_operand_def variable_operand_def Let_def)
  have k: "candidate_of strcmp_flags strcmp_abc
       \<lparr> HasStr1 = False, Str1 = [], HasStr2 = True, Str2 = ''abc'' \<rparr> =
       \<lparr> thestring = ''abc'' @ [NUL], optLen = 4, addedNull = False \<rparr>"
    using reconcile_strcmp_abc by (simp add: candidate_of_def strcmp_abc_def call_of_def)
  have l: "MAX_AUTO_EXTRA config_example * 8 = length (line (s1\<lparr> valueMap := [10 \<mapsto> None] \<rparr>))"
    by (simp add: v state_after_abc_def config_example_def)
  have e: "emit config_example (''abc'' @ [NUL]) 4 (s1\<lparr> valueMap := [10 \<mapsto> None] \<rparr>) =
      Inl WriteFailed"
  proof (cases "emit config_example (''abc'' @ [NUL]) 4 (s1\<lparr> valueMap := [10 \<mapsto> None] \<rparr>)")
    case (Inl e)
    have m: "0 < MAX_AUTO_EXTRA config_example" "4 \<le> MAX_AUTO_EXTRA config_example"
      "2 \<le> MAX_AUTO_EXTRA config_example"
      by (simp_all add: config_example_def)
    have f: "escapes_fit config_example (''abc'' @ [NUL]) 4
        (length (line (s1\<lparr> valueMap := [10 \<mapsto> None] \<rparr>)))"
      unfolding l [symmetric] by (rule escapes_fit_line [OF m(3) m(2)])
    from emit_result [OF m(1) l [symmetric] m(2) f] Inl show ?thesis
      by (auto simp: v)
  next
    case (Inr s')
    from emit_Inr [OF Inr] v(3) show ?thesis by simp
  qed
  have 2: "run_function config_example
      \<lparr> isIgnoreFunction = False, basic_blocks = [[Call strcmp_abc]] \<rparr> s1 =
      Some (Inl WriteFailed)"
    using e final_length_abc diag_print_example
    by (simp add: run_function_def c handle_compare_def Let_def v r k)
  show ?thesis
    by (simp add: two_writers_def 1 2)
qed

section \<open>The empty literal\<close>

text \<open>
  Claim C9. An operand whose constant string is empty is not resolved by the literal rule,
  in the first position as in the second; what the literal rule resolves is never empty;
  and an operand that is an empty constant and nothing else is unresolved at line 369, so
  that the site can only write what its other operand resolves to.
\<close>

theorem empty_literal_unresolved:
  "(constantString (argOperand0 callInst) = Some [] \<longrightarrow> \<not> HasStr1 (literal_rule callInst)) \<and>
   (constantString (argOperand1 callInst) = Some [] \<longrightarrow> \<not> HasStr2 (literal_rule callInst)) \<and>
   (HasStr1 (literal_rule callInst) \<longrightarrow> Str1 (literal_rule callInst) \<noteq> []) \<and>
   (HasStr2 (literal_rule callInst) \<longrightarrow> Str2 (literal_rule callInst) \<noteq> []) \<and>
   (empty_constant m (argOperand0 callInst) \<longrightarrow> \<not> HasStr1 (fst (resolve_compare callInst m))) \<and>
   (empty_constant m (argOperand1 callInst) \<longrightarrow> \<not> HasStr2 (fst (resolve_compare callInst m)))"
  by (auto simp: HasStr1_literal_rule HasStr2_literal_rule HasStr1_resolve_compare
      HasStr2_resolve_compare empty_constant_def spec_resolves_def bound_nonempty_def
      literal_rule_def Let_def getConstantStringInfo_def)

theorem empty_literal_unresolved_witness:
  "constantString (argOperand0 strcmp_empty_first) = Some [] \<and>
   \<not> HasStr1 (literal_rule strcmp_empty_first) \<and>
   constantString (argOperand1 strcmp_empty) = Some [] \<and>
   \<not> HasStr2 (literal_rule strcmp_empty) \<and>
   HasStr1 (literal_rule strcmp_abc_first) \<and> Str1 (literal_rule strcmp_abc_first) \<noteq> [] \<and>
   HasStr2 (literal_rule strcmp_abc) \<and> Str2 (literal_rule strcmp_abc) \<noteq> [] \<and>
   empty_constant Map.empty (argOperand0 strcmp_empty_first) \<and>
   \<not> HasStr1 (fst (resolve_compare strcmp_empty_first Map.empty)) \<and>
   empty_constant Map.empty (argOperand1 strcmp_empty) \<and>
   \<not> HasStr2 (fst (resolve_compare strcmp_empty Map.empty))"
proof -
  have 1: "constantString (argOperand0 strcmp_empty_first) = Some []"
    "constantString (argOperand1 strcmp_empty) = Some []"
    "empty_constant Map.empty (argOperand0 strcmp_empty_first)"
    "empty_constant Map.empty (argOperand1 strcmp_empty)"
    by (simp_all add: strcmp_empty_first_def strcmp_empty_def call_of_def empty_literal_def
        empty_constant_def bound_nonempty_def binding_def)
  have 2: "HasStr1 (literal_rule strcmp_abc_first)" "HasStr2 (literal_rule strcmp_abc)"
    by (simp_all add: literal_rule_def getConstantStringInfo_def strcmp_abc_first_def
        strcmp_abc_def call_of_def literal_operand_def variable_operand_def Let_def)
  from empty_literal_unresolved [of strcmp_empty_first Map.empty]
    empty_literal_unresolved [of strcmp_empty Map.empty]
    empty_literal_unresolved [of strcmp_abc_first Map.empty]
    empty_literal_unresolved [of strcmp_abc Map.empty] 1 2
  show ?thesis by simp
qed

section \<open>The bounds of the line buffer\<close>

lemma emit_no_overrun:
  assumes "2 \<le> MAX_AUTO_EXTRA cfg" and "line_ok cfg s" and "n \<le> MAX_AUTO_EXTRA cfg"
  shows "no_overrun cfg (Some (emit cfg str n s))"
proof -
  from assms(2) have l: "length (line s) = MAX_AUTO_EXTRA cfg * 8"
    by (simp add: line_ok_def)
  from assms(1) have p: "0 < MAX_AUTO_EXTRA cfg"
    by simp
  have f: "escapes_fit cfg str n (length (line s))"
    unfolding l using assms(1,3) by (rule escapes_fit_line)
  from emit_result [OF p l assms(3) f] l show ?thesis
    by (auto simp: no_overrun_def line_ok_def split: sum.splits)
qed

lemma handle_compare_no_overrun:
  assumes "2 \<le> MAX_AUTO_EXTRA cfg" and "line_ok cfg s"
  shows "no_overrun cfg (handle_compare cfg f ci s)"
proof -
  let ?s1 = "s\<lparr> valueMap := snd (resolve_compare ci (valueMap s)) \<rparr>"
  let ?c = "candidate_of f ci (fst (resolve_compare ci (valueMap s)))"
  have s1: "line_ok cfg ?s1" using assms(2) by (simp add: line_ok_def)
  have e: "no_overrun cfg (Some (emit cfg (thestring ?c) n ?s1))"
    if "final_length cfg ?c = Some n" for n
  proof -
    from that have "n \<le> MAX_AUTO_EXTRA cfg"
      by (auto simp: final_length_Some)
    then show ?thesis by (rule emit_no_overrun [OF assms(1) s1])
  qed
  have k: "no_overrun cfg (Some (Inr ?s1))"
    using s1 by (simp add: no_overrun_def)
  have n: "no_overrun cfg None"
    by (simp add: no_overrun_def)
  show ?thesis
    unfolding handle_compare_def Let_def using e k n
    by (simp split: option.splits)
qed

lemma handle_call_no_overrun:
  assumes "2 \<le> MAX_AUTO_EXTRA cfg" and "line_ok cfg s"
  shows "no_overrun cfg (handle_call cfg ci s)"
proof -
  have m: "no_overrun cfg (Some (Inr (handle_memcpy ci s)))"
    using assms(2) by (simp add: no_overrun_def line_ok_def handle_memcpy_def Let_def)
  have k: "no_overrun cfg (Some (Inr s))"
    using assms(2) by (simp add: no_overrun_def)
  show ?thesis
    unfolding handle_call_def
    using m k handle_compare_no_overrun [OF assms]
    by (simp split: option.splits)
qed

lemma no_overrun_bind:
  assumes "no_overrun cfg r"
    and "\<And>s'. r = Some (Inr s') \<Longrightarrow> line_ok cfg s' \<Longrightarrow> no_overrun cfg (k s')"
  shows "no_overrun cfg
     (case r of None \<Rightarrow> None | Some (Inl e) \<Rightarrow> Some (Inl e) | Some (Inr s') \<Rightarrow> k s')"
proof (cases r)
  case None
  then show ?thesis by (simp add: no_overrun_def)
next
  case (Some x)
  show ?thesis
  proof (cases x)
    case (Inl e)
    with Some assms(1) show ?thesis by (simp add: no_overrun_def)
  next
    case (Inr s')
    with Some assms(1) have "line_ok cfg s'" by (simp add: no_overrun_def)
    with assms(2) [of s'] Some Inr show ?thesis by simp
  qed
qed

lemma run_block_no_overrun:
  assumes "2 \<le> MAX_AUTO_EXTRA cfg"
  shows "line_ok cfg s \<Longrightarrow> no_overrun cfg (run_block cfg INs s)"
proof (induction INs arbitrary: s)
  case Nil
  then show ?case by (simp add: no_overrun_def)
next
  case (Cons IN INs)
  show ?case
  proof (cases IN)
    case Other_instruction
    with Cons show ?thesis by simp
  next
    case (Call callInst)
    have "no_overrun cfg
       (case handle_call cfg callInst s of None \<Rightarrow> None | Some (Inl e) \<Rightarrow> Some (Inl e)
        | Some (Inr s') \<Rightarrow> run_block cfg INs s')"
      using handle_call_no_overrun [OF assms Cons.prems] Cons.IH
      by (rule no_overrun_bind)
    with Call show ?thesis by simp
  qed
qed

lemma run_blocks_no_overrun:
  assumes "2 \<le> MAX_AUTO_EXTRA cfg"
  shows "line_ok cfg s \<Longrightarrow> no_overrun cfg (run_blocks cfg BBs s)"
proof (induction BBs arbitrary: s)
  case Nil
  then show ?case by (simp add: no_overrun_def)
next
  case (Cons BB BBs)
  have "no_overrun cfg
     (case run_block cfg BB s of None \<Rightarrow> None | Some (Inl e) \<Rightarrow> Some (Inl e)
      | Some (Inr s') \<Rightarrow> run_blocks cfg BBs s')"
    using run_block_no_overrun [OF assms Cons.prems] Cons.IH
    by (rule no_overrun_bind)
  then show ?case by simp
qed

lemma run_function_no_overrun:
  assumes "2 \<le> MAX_AUTO_EXTRA cfg" and "line_ok cfg s"
  shows "no_overrun cfg (run_function cfg F s)"
proof (cases "isIgnoreFunction F")
  case True
  with assms(2) show ?thesis by (simp add: run_function_def no_overrun_def)
next
  case False
  have "no_overrun cfg
     (case run_blocks cfg (basic_blocks F) s of None \<Rightarrow> None | Some (Inl e) \<Rightarrow> Some (Inl e)
      | Some (Inr s') \<Rightarrow> Some (Inr (s'\<lparr> fd_open := False, closes := closes s' + 1 \<rparr>)))"
    using run_blocks_no_overrun [OF assms]
    by (rule no_overrun_bind) (simp add: no_overrun_def line_ok_def)
  with False show ?thesis by (simp add: run_function_def)
qed

lemma run_module_no_overrun:
  assumes "2 \<le> MAX_AUTO_EXTRA cfg"
  shows "line_ok cfg s \<Longrightarrow> no_overrun cfg (run_module cfg M s)"
proof (induction M arbitrary: s)
  case Nil
  then show ?case by (simp add: no_overrun_def)
next
  case (Cons F Fs)
  have "no_overrun cfg
     (case run_function cfg F s of None \<Rightarrow> None | Some (Inl e) \<Rightarrow> Some (Inl e)
      | Some (Inr s') \<Rightarrow> run_module cfg Fs s')"
    using run_function_no_overrun [OF assms Cons.prems] Cons.IH
    by (rule no_overrun_bind)
  then show ?case by simp
qed

text \<open>
  With a buffer of \<open>MAX_AUTO_EXTRA * 8\<close> bytes and \<open>MAX_AUTO_EXTRA\<close> at least two, no call
  instruction and no run over a module writes outside the buffer, and the buffer keeps its
  size, whatever the length of the escape sequences.
\<close>

lemma line_holds_from_two:
  assumes "2 \<le> MAX_AUTO_EXTRA cfg" and "length (line s) = MAX_AUTO_EXTRA cfg * 8"
  shows "handle_call cfg callInst s \<noteq> Some (Inl LineOverrun) \<and>
         run_module cfg M s \<noteq> Some (Inl LineOverrun) \<and>
         (\<forall>s'. handle_call cfg callInst s = Some (Inr s') \<longrightarrow>
            length (line s') = MAX_AUTO_EXTRA cfg * 8) \<and>
         (\<forall>s'. run_module cfg M s = Some (Inr s') \<longrightarrow>
            length (line s') = MAX_AUTO_EXTRA cfg * 8)"
proof -
  from assms(2) have ok: "line_ok cfg s" by (simp add: line_ok_def)
  from handle_call_no_overrun [OF assms(1) ok, of callInst]
    run_module_no_overrun [OF assms(1) ok, of M]
  show ?thesis
    by (auto simp: no_overrun_def line_ok_def)
qed

text \<open>
  Where no byte to render is above 127, or \<open>char\<close> is unsigned, every escape sequence has
  four characters and a positive \<open>MAX_AUTO_EXTRA\<close> is enough for the emitter to stay within
  the buffer.
\<close>

lemma emit_short_escapes:
  assumes "0 < MAX_AUTO_EXTRA cfg" and "length (line s) = MAX_AUTO_EXTRA cfg * 8"
    and "n \<le> MAX_AUTO_EXTRA cfg"
    and "\<not> char_is_signed cfg \<or> (\<forall>k<n. (of_char (c_str_at str k) :: nat) < 128)"
  shows "emit cfg str n s \<noteq> Inl LineOverrun"
proof -
  have "n + 5 \<le> length (line s)"
    using assms(1-3) by simp
  then have "escapes_fit cfg str n (length (line s))"
    using assms(4) by (rule escapes_fit_short)
  from emit_result [OF assms(1-3) this] show ?thesis
    by (auto split: sum.splits)
qed

subsection \<open>strcmp(x, s) with s the byte 128\<close>

lemma classify_strcmp_x80: "classify strcmp_x80 = Some strcmp_flags"
  using classify_strcmp_abc
  by (simp add: classify_def strcmp_x80_def strcmp_abc_def call_of_def)

lemma resolve_strcmp_x80:
  "resolve_compare strcmp_x80 Map.empty =
    (\<lparr> HasStr1 = False, Str1 = [], HasStr2 = True, Str2 = [CHR 0x80] \<rparr>, [10 \<mapsto> None])"
  by (simp add: resolve_compare_def local_rule1_def local_rule2_def global_rule1_def
      global_rule2_def literal_rule_def getConstantStringInfo_def lookup_insert_def
      strcmp_x80_def call_of_def literal_operand_def variable_operand_def)

lemma reconcile_strcmp_x80:
  "reconcile strcmp_flags None [CHR 0x80] =
     \<lparr> thestring = [CHR 0x80, NUL], optLen = 2, addedNull = False \<rparr>"
  by (simp add: reconcile_def terminator_rule_def cut_garbage_def append_terminator_def
      length_rule_def find_nul_def strcmp_flags_def NUL_def Let_def)

lemma final_length_x80:
  "final_length config_one \<lparr> thestring = [CHR 0x80, NUL], optLen = 2, addedNull = False \<rparr> =
     Some 1"
  by (simp add: final_length_def config_one_def)

lemma sprintf_tmp_x80:
  "sprintf_tmp config_one (CHR 0x80) =
     [backslash, CHR ''x'', CHR ''f'', CHR ''f'', CHR ''f'', CHR ''f'', CHR ''f'', CHR ''f'',
      CHR ''8'', CHR ''0'']"
  by (simp add: sprintf_tmp_def hex_escape_def hex_digit_def config_one_def)

lemma render_x80:
  "render config_one [CHR 0x80, NUL] 1 ''########'' = Inl LineOverrun"
  by (simp add: render_def strcpy_def put_string_def render_loop.simps poke_def c_str_at_def
      isprint_def NUL_def dquote_def strcat_def strlen_def sprintf_tmp_x80 backslash_def)

lemma handle_strcmp_x80:
  "handle_call config_one strcmp_x80 state_one = Some (Inl LineOverrun)"
proof -
  have 1: "handle_call config_one strcmp_x80 state_one =
      handle_compare config_one strcmp_flags strcmp_x80 state_one"
    by (simp add: handle_call_def classify_strcmp_x80) (simp add: strcmp_flags_def)
  have v: "valueMap state_one = Map.empty"
    by (simp add: state_one_def state_example_fields)
  have 2: "candidate_of strcmp_flags strcmp_x80
       \<lparr> HasStr1 = False, Str1 = [], HasStr2 = True, Str2 = [CHR 0x80] \<rparr> =
       \<lparr> thestring = [CHR 0x80, NUL], optLen = 2, addedNull = False \<rparr>"
    using reconcile_strcmp_x80 by (simp add: candidate_of_def strcmp_x80_def call_of_def)
  have 3: "diag_print config_one str = Some ()" for str
    by (simp add: diag_print_def config_one_def)
  have 4: "emit config_one [CHR 0x80, NUL] 1 (state_one\<lparr> valueMap := [10 \<mapsto> None] \<rparr>) =
      Inl LineOverrun"
    using render_x80 by (simp add: emit_def state_one_def)
  show ?thesis
    unfolding 1 handle_compare_def Let_def v resolve_strcmp_x80
    using 2 3 4 final_length_x80 by simp
qed

text \<open>
  Claim C10 has every rendered byte contribute at most four characters and every write stay
  within the \<open>MAX_AUTO_EXTRA * 8\<close> bytes of \<open>line\<close>. Where \<open>char\<close> is signed, line 459 hands
  a byte above 127 to \<open>sprintf\<close> as a negative \<open>int\<close>: the text has ten characters, three
  more than \<open>tmp\<close> holds. At \<open>strcmp(x, s)\<close> with \<open>s\<close> the byte 128 and \<open>MAX_AUTO_EXTRA = 1\<close>,
  \<open>strcat\<close> copies the ten characters to \<open>line + 1\<close>, past the eight bytes of \<open>line\<close>.
\<close>

theorem line_buffer_overrun_signed_char:
  "char_is_signed config_one \<and> MAX_AUTO_EXTRA config_one = 1 \<and>
   length (line state_one) = MAX_AUTO_EXTRA config_one * 8 \<and>
   constantString (argOperand1 strcmp_x80) = Some [CHR 0x80] \<and>
   length (sprintf_tmp config_one (CHR 0x80)) = 10 \<and>
   tmp_overrun config_one (CHR 0x80) \<and>
   handle_call config_one strcmp_x80 state_one = Some (Inl LineOverrun) \<and>
   run_module config_one [\<lparr> isIgnoreFunction = False, basic_blocks = [[Call strcmp_x80]] \<rparr>]
     state_one = Some (Inl LineOverrun)"
proof -
  have 1: "char_is_signed config_one" "MAX_AUTO_EXTRA config_one = 1"
    by (simp_all add: config_one_def)
  have 2: "length (line state_one) = MAX_AUTO_EXTRA config_one * 8"
    by (simp add: state_one_def config_one_def)
  have 3: "constantString (argOperand1 strcmp_x80) = Some [CHR 0x80]"
    by (simp add: strcmp_x80_def call_of_def literal_operand_def)
  have 4: "length (sprintf_tmp config_one (CHR 0x80)) = 10"
    by (simp add: sprintf_tmp_x80)
  then have 5: "tmp_overrun config_one (CHR 0x80)"
    by (simp add: tmp_overrun_def)
  have 6: "run_module config_one
      [\<lparr> isIgnoreFunction = False, basic_blocks = [[Call strcmp_x80]] \<rparr>] state_one =
      Some (Inl LineOverrun)"
    by (simp add: run_function_def handle_strcmp_x80)
  from 1 2 3 4 5 6 handle_strcmp_x80 show ?thesis
    by simp
qed

end
